theory Spec2Isabelle
  imports Complex_Main "HOL-Library.Extended_Nat" "HOL-Library.Sublist"
begin

section \<open>The resilient streaming-connection manager of \<^verbatim>\<open>src/hooks/useWebsocket.ts\<close>\<close>

text \<open>
  The hook \<^verbatim>\<open>useWebsocket\<close> keeps its state in reference cells that every callback
  reads and writes, and all of its code runs in callbacks of a single-threaded event
  loop. The embedding is therefore a record of the reference cells, one function per
  callback of the source, and a function \<open>step\<close> that dispatches one event of the
  event loop to the callback the source registered for it.

  What the source takes from its runtime is a parameter of the model:
  \<^item> \<^verbatim>\<open>JSON.stringify\<close> and \<^verbatim>\<open>JSON.parse\<close> are the fields \<open>stringify\<close> and \<open>parse\<close> of
    a \<open>runtime\<close>, with \<open>None\<close> where the call throws;
  \<^item> \<^verbatim>\<open>new WebSocket(url)\<close> throws where \<open>constructs\<close> is false;
  \<^item> \<^verbatim>\<open>ws.send(payload)\<close> is decided by \<open>xmit\<close>, which may depend on everything
    observed so far: the payload is accepted, or the call throws and the socket
    afterwards reports one of the readiness states \<^verbatim>\<open>OPEN\<close>, \<^verbatim>\<open>CLOSING\<close>, \<^verbatim>\<open>CLOSED\<close>.
  \<^item> \<^verbatim>\<open>Math.pow\<close>, whose result the language leaves to the implementation, is the field
    \<open>math_pow\<close>.
  A JavaScript number that enters the delay is a \<open>number\<close>: a finite double (given by
  its real value), an infinity or \<^verbatim>\<open>NaN\<close>; the product and \<^verbatim>\<open>Math.min\<close> are those of
  IEEE 754 doubles, with rounding to nearest, ties to even. The attempt counter is a
  natural number; \<^verbatim>\<open>maxReconnectAttempts\<close>, whose default is \<^verbatim>\<open>Infinity\<close>, is an
  extended natural number. \<^verbatim>\<open>console.log\<close> and \<^verbatim>\<open>console.error\<close> are not modelled, the
  callbacks supplied by the application (\<^verbatim>\<open>handler\<close>, \<^verbatim>\<open>onOpen\<close>, \<^verbatim>\<open>onClose\<close>,
  \<^verbatim>\<open>onError\<close>) are recorded in a trace at the place where the source invokes them
  (also an optional callback, which may be absent) and are taken to return normally
  without calling back into the hook, and \<^verbatim>\<open>close()\<close>, called without arguments, does
  not throw. The options of the hook are the same in every render, and the effects
  run once per change of their dependency.
\<close>

subsection \<open>Data\<close>

datatype ready_state = CONNECTING | OPEN | CLOSING | CLOSED

text \<open>A \<^verbatim>\<open>WebSocket\<close> object: its address, its \<^verbatim>\<open>readyState\<close>, and for each of the four
  handler slots whether the handler of \<^verbatim>\<open>connect\<close> is installed (\<open>True\<close>) or the slot is
  \<^verbatim>\<open>null\<close>.\<close>

record sock =
  sock_url :: string
  readyState :: ready_state
  onopen :: bool
  onmessage :: bool
  onerror :: bool
  onclose :: bool

text \<open>The three callbacks the source passes to \<^verbatim>\<open>setTimeout\<close>: the retry scheduled by
  \<^verbatim>\<open>ws.onclose\<close>, the retry scheduled by the \<^verbatim>\<open>catch\<close> branch of \<^verbatim>\<open>connect\<close>, and the
  100 ms delay of the main effect, which closes over the \<^verbatim>\<open>url\<close> of its render.\<close>

datatype timer_kind = RetryAfterClose | RetryAfterCatch | MountDelay "string option"

text \<open>A JavaScript number: a finite double, written as the real number it denotes (the
  sign of a zero is not kept), \<^verbatim>\<open>Infinity\<close>, \<^verbatim>\<open>-Infinity\<close> or \<^verbatim>\<open>NaN\<close>.\<close>

datatype number = Finite real | PosInfinity | NegInfinity | NaN

record timer =
  kind :: timer_kind
  delay :: number

text \<open>What the manager does to the outside, in the order it does it: a payload handed to
  \<^verbatim>\<open>ws.send\<close> of a socket and accepted, a call of \<^verbatim>\<open>close()\<close> on a socket, and the
  invocations of the application's callbacks.\<close>

datatype 'd obs =
    Transmit nat string
  | CloseCall nat
  | CbOpen
  | CbClose
  | CbError
  | CbHandler 'd

datatype after_throw = StillOpen | NowClosing | NowClosed

datatype xmit_result = Accepted | Threw after_throw

record ('m, 'd) runtime =
  stringify :: "'m \<Rightarrow> string option"
  parse :: "string \<Rightarrow> 'd option"
  constructs :: "string \<Rightarrow> bool"
  xmit :: "'d obs list \<Rightarrow> nat \<Rightarrow> string \<Rightarrow> xmit_result"
  math_pow :: "real \<Rightarrow> int \<Rightarrow> number"

text \<open>The options of the hook (defaults: \<^verbatim>\<open>true\<close>, \<^verbatim>\<open>3000\<close>, \<^verbatim>\<open>Infinity\<close>).\<close>

record config =
  reconnect :: bool
  reconnectInterval :: number
  maxReconnectAttempts :: enat

text \<open>The reference cells of the hook and the \<^verbatim>\<open>connected\<close> state variable
  (\<open>connectedSig\<close>), followed by the world they refer to: the store of all sockets
  constructed so far (addresses below \<open>nextSock\<close>), the pending timers (a timer that
  fired or was cleared is removed), the closure of the live main effect (its \<^verbatim>\<open>url\<close>
  and its \<^verbatim>\<open>timeoutId\<close>) and the trace. \<open>connectRef\<close> is true when
  \<^verbatim>\<open>connectRef.current\<close> holds \<^verbatim>\<open>connect\<close> rather than \<^verbatim>\<open>null\<close>.\<close>

record ('m, 'd) state =
  wsRef :: "nat option"
  reconnectTimeoutRef :: "nat option"
  reconnectAttemptsRef :: nat
  urlRef :: "string option"
  connectRef :: bool
  isManualCloseRef :: bool
  isConnectingRef :: bool
  messageQueueRef :: "'m list"
  connectedSig :: bool
  socks :: "nat \<Rightarrow> sock"
  nextSock :: nat
  timers :: "nat \<Rightarrow> timer option"
  nextTimer :: nat
  effectUrl :: "string option"
  effectTimeout :: "nat option"
  trace :: "'d obs list"

text \<open>A statement of the source either completes or throws, in both cases in some
  state.\<close>

datatype 's res = Done 's | Throw 's

text \<open>The events of the event loop: a render of the component with a \<^verbatim>\<open>url\<close>, a call of
  \<^verbatim>\<open>connect\<close>, \<^verbatim>\<open>send\<close> or \<^verbatim>\<open>disconnect\<close>, a timer that fires, and what the transport
  does to a socket (it opens, delivers a frame, reports an error, starts to close,
  has closed).\<close>

datatype 'm event =
    Render "string option"
  | CallConnect
  | Send 'm
  | Disconnect
  | TimerFire nat
  | SockOpen nat
  | SockMessage nat string
  | SockError nat
  | SockClosing nat
  | SockClose nat

subsection \<open>Helpers of the runtime\<close>

text \<open>JavaScript truthiness of a \<^verbatim>\<open>string | null\<close>: \<^verbatim>\<open>null\<close> and the empty string are
  falsy.\<close>

definition truthy :: "string option \<Rightarrow> bool" where
  "truthy u = (case u of None \<Rightarrow> False | Some a \<Rightarrow> a \<noteq> [])"

definition setTimeout :: "timer_kind \<Rightarrow> number \<Rightarrow> ('m, 'd) state \<Rightarrow> ('m, 'd) state" where
  "setTimeout k d s =
     s\<lparr>timers := (timers s)(nextTimer s \<mapsto> \<lparr>kind = k, delay = d\<rparr>),
       nextTimer := nextTimer s + 1\<rparr>"

definition clearTimeout :: "nat \<Rightarrow> ('m, 'd) state \<Rightarrow> ('m, 'd) state" where
  "clearTimeout t s = s\<lparr>timers := (timers s)(t := None)\<rparr>"

text \<open>\<^verbatim>\<open>ws.onopen = null; ws.onmessage = null; ws.onerror = null; ws.onclose = null\<close>\<close>

definition detach :: "nat \<Rightarrow> ('m, 'd) state \<Rightarrow> ('m, 'd) state" where
  "detach i s =
     s\<lparr>socks := (socks s)(i := (socks s i)
         \<lparr>onopen := False, onmessage := False, onerror := False, onclose := False\<rparr>)\<rparr>"

text \<open>\<^verbatim>\<open>ws.close()\<close>: a socket that is connecting or open starts to close; on a socket
  that is closing or closed the call does nothing.\<close>

definition ws_close :: "nat \<Rightarrow> ('m, 'd) state \<Rightarrow> ('m, 'd) state" where
  "ws_close i s =
     (if readyState (socks s i) = CLOSING \<or> readyState (socks s i) = CLOSED
      then s\<lparr>trace := trace s @ [CloseCall i]\<rparr>
      else s\<lparr>socks := (socks s)(i := (socks s i)\<lparr>readyState := CLOSING\<rparr>),
             trace := trace s @ [CloseCall i]\<rparr>)"

definition after_state :: "after_throw \<Rightarrow> ready_state" where
  "after_state a = (case a of StillOpen \<Rightarrow> OPEN | NowClosing \<Rightarrow> CLOSING | NowClosed \<Rightarrow> CLOSED)"

text \<open>\<^verbatim>\<open>ws.send(payload)\<close>\<close>

definition ws_send ::
  "('m, 'd) runtime \<Rightarrow> nat \<Rightarrow> string \<Rightarrow> ('m, 'd) state \<Rightarrow> ('m, 'd) state res" where
  "ws_send rt i p s =
     (case xmit rt (trace s) i p of
        Accepted \<Rightarrow> Done (s\<lparr>trace := trace s @ [Transmit i p]\<rparr>)
      | Threw a \<Rightarrow>
          Throw (s\<lparr>socks := (socks s)(i := (socks s i)\<lparr>readyState := after_state a\<rparr>)\<rparr>))"

text \<open>\<^verbatim>\<open>ws.send(JSON.stringify(msg))\<close>\<close>

definition transmit ::
  "('m, 'd) runtime \<Rightarrow> nat \<Rightarrow> 'm \<Rightarrow> ('m, 'd) state \<Rightarrow> ('m, 'd) state res" where
  "transmit rt i msg s =
     (case stringify rt msg of
        None \<Rightarrow> Throw s
      | Some p \<Rightarrow> ws_send rt i p s)"

text \<open>\<^verbatim>\<open>new WebSocket(url)\<close>: the new socket is connecting and has no handlers.\<close>

definition ws_new ::
  "('m, 'd) runtime \<Rightarrow> string \<Rightarrow> ('m, 'd) state \<Rightarrow> ('m, 'd) state res" where
  "ws_new rt u s =
     (if constructs rt u
      then Done (s\<lparr>socks := (socks s)(nextSock s :=
                      \<lparr>sock_url = u, readyState = CONNECTING, onopen = False,
                       onmessage = False, onerror = False, onclose = False\<rparr>),
                   nextSock := nextSock s + 1\<rparr>)
      else Throw s)"

subsection \<open>The reconnection policy\<close>

text \<open>Rounding of a real number to a double: to the nearest, a tie to the one whose
  last bit is even. A double has 53 significant bits and an exponent from -1022 to
  1023; below the least exponent the spacing stays that of the subnormal numbers, and
  a result of magnitude \<open>2 ^ 1024\<close> or more is an infinity.\<close>

definition round_half_even :: "real \<Rightarrow> int" where
  "round_half_even q =
     (let f = \<lfloor>q\<rfloor>; d = q - of_int f in
      if d < 1 / 2 then f else if 1 / 2 < d then f + 1 else if even f then f else f + 1)"

definition fl :: "real \<Rightarrow> number" where
  "fl x =
     (if x = 0 then Finite 0
      else
        let e = max \<lfloor>log 2 \<bar>x\<bar>\<rfloor> (- 1022);
            u = 2 powi (e - 52);
            y = of_int (round_half_even (x / u)) * u
        in if 2 powi 1024 \<le> \<bar>y\<bar> then (if 0 < x then PosInfinity else NegInfinity)
           else Finite y)"

text \<open>The operator \<^verbatim>\<open>*\<close> on numbers.\<close>

fun js_times :: "number \<Rightarrow> number \<Rightarrow> number" where
  "js_times NaN b = NaN"
| "js_times a NaN = NaN"
| "js_times (Finite a) (Finite b) = fl (a * b)"
| "js_times (Finite a) PosInfinity =
     (if a = 0 then NaN else if 0 < a then PosInfinity else NegInfinity)"
| "js_times (Finite a) NegInfinity =
     (if a = 0 then NaN else if 0 < a then NegInfinity else PosInfinity)"
| "js_times PosInfinity (Finite b) =
     (if b = 0 then NaN else if 0 < b then PosInfinity else NegInfinity)"
| "js_times NegInfinity (Finite b) =
     (if b = 0 then NaN else if 0 < b then NegInfinity else PosInfinity)"
| "js_times PosInfinity PosInfinity = PosInfinity"
| "js_times PosInfinity NegInfinity = NegInfinity"
| "js_times NegInfinity PosInfinity = NegInfinity"
| "js_times NegInfinity NegInfinity = PosInfinity"

text \<open>\<^verbatim>\<open>Math.min\<close> of two numbers.\<close>

fun js_min :: "number \<Rightarrow> number \<Rightarrow> number" where
  "js_min NaN b = NaN"
| "js_min a NaN = NaN"
| "js_min NegInfinity b = NegInfinity"
| "js_min a NegInfinity = NegInfinity"
| "js_min PosInfinity b = b"
| "js_min a PosInfinity = a"
| "js_min (Finite a) (Finite b) = Finite (min a b)"

text \<open>\<^verbatim>\<open>Math.min(reconnectInterval * Math.pow(1.5, reconnectAttemptsRef.current - 1), 30000)\<close>,
  with \<open>n\<close> the value of the counter; the exponent is an integer, negative when the
  counter is 0.\<close>

definition reconnect_delay :: "('m, 'd) runtime \<Rightarrow> config \<Rightarrow> nat \<Rightarrow> number" where
  "reconnect_delay rt cfg n =
     js_min (js_times (reconnectInterval cfg) (math_pow rt 1.5 (int n - 1))) (Finite 30000)"

text \<open>The block that \<^verbatim>\<open>ws.onclose\<close> and the \<^verbatim>\<open>catch\<close> branch of \<^verbatim>\<open>connect\<close> both end with;
  the two copies differ in the callback of the timer only.\<close>

definition schedule_retry ::
  "config \<Rightarrow> ('m, 'd) runtime \<Rightarrow> timer_kind \<Rightarrow> ('m, 'd) state \<Rightarrow> ('m, 'd) state" where
  "schedule_retry cfg rt k s =
     (if \<not> isManualCloseRef s \<and> reconnect cfg \<and> truthy (urlRef s) \<and> connectRef s \<and>
         enat (reconnectAttemptsRef s) < maxReconnectAttempts cfg
      then
        let s1 = s\<lparr>reconnectAttemptsRef := reconnectAttemptsRef s + 1\<rparr>;
            d = reconnect_delay rt cfg (reconnectAttemptsRef s1)
        in (setTimeout k d s1)\<lparr>reconnectTimeoutRef := Some (nextTimer s1)\<rparr>
      else s)"

subsection \<open>The handlers that \<^verbatim>\<open>connect\<close> installs on a socket\<close>

text \<open>One turn of the \<^verbatim>\<open>forEach\<close> in \<^verbatim>\<open>ws.onopen\<close>: the send is skipped when the socket
  is not open, and an exception is caught and logged.\<close>

definition flush_one ::
  "('m, 'd) runtime \<Rightarrow> nat \<Rightarrow> 'm \<Rightarrow> ('m, 'd) state \<Rightarrow> ('m, 'd) state" where
  "flush_one rt i msg s =
     (if readyState (socks s i) = OPEN
      then (case transmit rt i msg s of Done s1 \<Rightarrow> s1 | Throw s1 \<Rightarrow> s1)
      else s)"

fun flush :: "('m, 'd) runtime \<Rightarrow> nat \<Rightarrow> 'm list \<Rightarrow> ('m, 'd) state \<Rightarrow> ('m, 'd) state" where
  "flush rt i [] s = s"
| "flush rt i (msg # queue) s = flush rt i queue (flush_one rt i msg s)"

definition ws_onopen :: "('m, 'd) runtime \<Rightarrow> nat \<Rightarrow> ('m, 'd) state \<Rightarrow> ('m, 'd) state" where
  "ws_onopen rt i s =
     (let s1 = s\<lparr>isConnectingRef := False, connectedSig := True, reconnectAttemptsRef := 0\<rparr>;
          queue = messageQueueRef s1;
          s2 = s1\<lparr>messageQueueRef := []\<rparr>;
          s3 = flush rt i queue s2
      in s3\<lparr>trace := trace s3 @ [CbOpen]\<rparr>)"

definition ws_onmessage ::
  "('m, 'd) runtime \<Rightarrow> string \<Rightarrow> ('m, 'd) state \<Rightarrow> ('m, 'd) state" where
  "ws_onmessage rt p s =
     (case parse rt p of
        None \<Rightarrow> s
      | Some d \<Rightarrow> s\<lparr>trace := trace s @ [CbHandler d]\<rparr>)"

definition ws_onerror :: "('m, 'd) state \<Rightarrow> ('m, 'd) state" where
  "ws_onerror s = s\<lparr>isConnectingRef := False, trace := trace s @ [CbError]\<rparr>"

definition ws_onclose ::
  "config \<Rightarrow> ('m, 'd) runtime \<Rightarrow> nat \<Rightarrow> ('m, 'd) state \<Rightarrow> ('m, 'd) state" where
  "ws_onclose cfg rt i s =
     (let s1 = s\<lparr>isConnectingRef := False, connectedSig := False, messageQueueRef := [],
                 trace := trace s @ [CbClose]\<rparr>;
          s2 = (if wsRef s1 = Some i then s1\<lparr>wsRef := None\<rparr> else s1)
      in schedule_retry cfg rt RetryAfterClose s2)"

subsection \<open>\<^verbatim>\<open>connect\<close>\<close>

text \<open>The clean-up of an existing connection; \<open>None\<close> is the \<^verbatim>\<open>return\<close> of the branch
  for a socket that is still connecting.\<close>

definition connect_cleanup :: "('m, 'd) state \<Rightarrow> ('m, 'd) state option" where
  "connect_cleanup s =
     (case wsRef s of
        None \<Rightarrow> Some s
      | Some i \<Rightarrow>
          let currentState = readyState (socks s i) in
          if currentState = OPEN \<or> currentState = CLOSED
          then Some ((let s1 = detach i s in
                      if currentState = OPEN then ws_close i s1 else s1)\<lparr>wsRef := None\<rparr>)
          else if currentState = CONNECTING then None
          else Some s)"

text \<open>The body of the \<^verbatim>\<open>try\<close>: the socket is constructed, stored in \<^verbatim>\<open>wsRef\<close>, and the
  four handlers are installed.\<close>

definition connect_try ::
  "('m, 'd) runtime \<Rightarrow> string \<Rightarrow> ('m, 'd) state \<Rightarrow> ('m, 'd) state res" where
  "connect_try rt u s =
     (case ws_new rt u s of
        Throw s1 \<Rightarrow> Throw s1
      | Done s1 \<Rightarrow>
          let ws = nextSock s in
          Done (s1\<lparr>wsRef := Some ws,
                   socks := (socks s1)(ws := (socks s1 ws)
                     \<lparr>onopen := True, onmessage := True, onerror := True, onclose := True\<rparr>)\<rparr>))"

definition connect_catch ::
  "config \<Rightarrow> ('m, 'd) runtime \<Rightarrow> ('m, 'd) state \<Rightarrow> ('m, 'd) state" where
  "connect_catch cfg rt s =
     schedule_retry cfg rt RetryAfterCatch
       (s\<lparr>isConnectingRef := False, connectedSig := False\<rparr>)"

text \<open>\<^verbatim>\<open>wsRef.current?.readyState === WebSocket.OPEN\<close>\<close>

definition ws_open :: "('m, 'd) state \<Rightarrow> bool" where
  "ws_open s = (case wsRef s of None \<Rightarrow> False | Some i \<Rightarrow> readyState (socks s i) = OPEN)"

definition connect ::
  "config \<Rightarrow> ('m, 'd) runtime \<Rightarrow> ('m, 'd) state \<Rightarrow> ('m, 'd) state res" where
  "connect cfg rt s =
     (case urlRef s of
        None \<Rightarrow> Done s
      | Some u \<Rightarrow>
          if u = [] \<or> isManualCloseRef s then Done s
          else if ws_open s then Done s
          else if isConnectingRef s then Done s
          else if maxReconnectAttempts cfg \<le> enat (reconnectAttemptsRef s) then Done s
          else
            (case connect_cleanup s of
               None \<Rightarrow> Done s
             | Some s1 \<Rightarrow>
                 (case connect_try rt u (s1\<lparr>isConnectingRef := True\<rparr>) of
                    Done s2 \<Rightarrow> Done s2
                  | Throw s2 \<Rightarrow> Done (connect_catch cfg rt s2))))"

subsection \<open>\<^verbatim>\<open>send\<close> and \<^verbatim>\<open>disconnect\<close>\<close>

definition enqueue :: "'m \<Rightarrow> ('m, 'd) state \<Rightarrow> ('m, 'd) state" where
  "enqueue msg s = s\<lparr>messageQueueRef := messageQueueRef s @ [msg]\<rparr>"

definition send ::
  "('m, 'd) runtime \<Rightarrow> 'm \<Rightarrow> ('m, 'd) state \<Rightarrow> ('m, 'd) state res" where
  "send rt msg s =
     (case wsRef s of
        None \<Rightarrow> Done (enqueue msg s)
      | Some ws \<Rightarrow>
          if readyState (socks s ws) = OPEN
          then (case transmit rt ws msg s of
                  Done s1 \<Rightarrow> Done s1
                | Throw s1 \<Rightarrow>
                    Done (if readyState (socks s1 ws) = OPEN then enqueue msg s1 else s1))
          else if readyState (socks s ws) = CONNECTING then Done (enqueue msg s)
          else Done (enqueue msg s))"

text \<open>The part that \<^verbatim>\<open>disconnect\<close> and the two clean-up functions of the main effect
  share word for word: the pending reconnection timer is cleared, the handlers of
  the current socket are removed, the socket is closed when it is connecting or open,
  \<^verbatim>\<open>wsRef\<close> is reset and \<^verbatim>\<open>connected\<close> becomes false.\<close>

definition release :: "('m, 'd) state \<Rightarrow> ('m, 'd) state" where
  "release s =
     (let s1 = (case reconnectTimeoutRef s of
                  None \<Rightarrow> s
                | Some t \<Rightarrow> (clearTimeout t s)\<lparr>reconnectTimeoutRef := None\<rparr>);
          s2 = (case wsRef s1 of
                  None \<Rightarrow> s1
                | Some i \<Rightarrow>
                    (let s3 = detach i s1 in
                     if readyState (socks s3 i) = CONNECTING \<or> readyState (socks s3 i) = OPEN
                     then ws_close i s3 else s3)\<lparr>wsRef := None\<rparr>)
      in s2\<lparr>connectedSig := False\<rparr>)"

definition disconnect :: "('m, 'd) state \<Rightarrow> ('m, 'd) state" where
  "disconnect s = release (s\<lparr>isManualCloseRef := True, isConnectingRef := False\<rparr>)"

subsection \<open>The effects\<close>

text \<open>The main effect for a render with \<^verbatim>\<open>url = u\<close>.\<close>

definition main_effect :: "string option \<Rightarrow> ('m, 'd) state \<Rightarrow> ('m, 'd) state" where
  "main_effect u s =
     (let s1 = s\<lparr>isManualCloseRef := False, reconnectAttemptsRef := 0, effectUrl := u\<rparr> in
      if truthy u \<and> \<not> isManualCloseRef s1
      then (setTimeout (MountDelay u) (Finite 100) s1)\<lparr>effectTimeout := Some (nextTimer s1)\<rparr>
      else s1\<lparr>effectTimeout := None\<rparr>)"

text \<open>The clean-up function the live main effect returned: the one of the branch for a
  truthy \<^verbatim>\<open>url\<close>, which tears down only if \<^verbatim>\<open>urlRef.current !== url\<close>, or the one of the
  other branch.\<close>

definition effect_cleanup :: "('m, 'd) state \<Rightarrow> ('m, 'd) state" where
  "effect_cleanup s =
     (case effectTimeout s of
        Some timeoutId \<Rightarrow>
          let s1 = clearTimeout timeoutId s in
          if urlRef s1 \<noteq> effectUrl s1
          then release (s1\<lparr>isManualCloseRef := True\<rparr>)
          else s1
      | None \<Rightarrow> release (s\<lparr>isManualCloseRef := True\<rparr>))"

text \<open>A render with a \<^verbatim>\<open>url\<close> that differs from the one of the live effects: React runs
  the clean-up of the main effect, then the effect that stores the \<^verbatim>\<open>url\<close> in
  \<^verbatim>\<open>urlRef\<close>, then the main effect. A render with the same \<^verbatim>\<open>url\<close> runs none of them.\<close>

definition render :: "string option \<Rightarrow> ('m, 'd) state \<Rightarrow> ('m, 'd) state" where
  "render u s =
     (if u = effectUrl s then s
      else main_effect u ((effect_cleanup s)\<lparr>urlRef := u\<rparr>))"

text \<open>The first render: \<^verbatim>\<open>useRef\<close> and \<^verbatim>\<open>useState\<close> give the cells their initial values,
  then the effects run in the order of the source.\<close>

definition init :: "string option \<Rightarrow> ('m, 'd) state" where
  "init u =
     \<lparr>wsRef = None, reconnectTimeoutRef = None, reconnectAttemptsRef = 0, urlRef = u,
      connectRef = False, isManualCloseRef = False, isConnectingRef = False,
      messageQueueRef = [], connectedSig = False,
      socks = (\<lambda>_. \<lparr>sock_url = [], readyState = CLOSED, onopen = False,
                     onmessage = False, onerror = False, onclose = False\<rparr>),
      nextSock = 0, timers = (\<lambda>_. None), nextTimer = 0,
      effectUrl = u, effectTimeout = None, trace = []\<rparr>"

definition mount :: "string option \<Rightarrow> ('m, 'd) state" where
  "mount u = main_effect u ((init u)\<lparr>urlRef := u, connectRef := True\<rparr>)"

subsection \<open>The event loop\<close>

text \<open>The state in which a call made by the event loop ends; an exception that
  reaches the event loop is reported there and goes no further.\<close>

fun returned :: "'s res \<Rightarrow> 's" where
  "returned (Done s) = s"
| "returned (Throw s) = s"

fun is_render :: "'m event \<Rightarrow> bool" where
  "is_render (Render u) = True"
| "is_render e = False"

text \<open>The trace entries that are invocations of the application's callbacks.\<close>

fun is_callback :: "'d obs \<Rightarrow> bool" where
  "is_callback (Transmit i p) = False"
| "is_callback (CloseCall i) = False"
| "is_callback e = True"

text \<open>A timer that is pending fires once and runs the callback of its kind.\<close>

definition fire_timer ::
  "config \<Rightarrow> ('m, 'd) runtime \<Rightarrow> nat \<Rightarrow> ('m, 'd) state \<Rightarrow> ('m, 'd) state" where
  "fire_timer cfg rt t s =
     (case timers s t of
        None \<Rightarrow> s
      | Some tm \<Rightarrow>
          let s1 = s\<lparr>timers := (timers s)(t := None)\<rparr> in
          (case kind tm of
             RetryAfterClose \<Rightarrow>
               if connectRef s1 \<and> \<not> isManualCloseRef s1 \<and> \<not> isConnectingRef s1
               then returned (connect cfg rt s1) else s1
           | RetryAfterCatch \<Rightarrow>
               if connectRef s1 \<and> \<not> isManualCloseRef s1
               then returned (connect cfg rt s1) else s1
           | MountDelay u \<Rightarrow>
               if \<not> isManualCloseRef s1 \<and> urlRef s1 = u
               then returned (connect cfg rt s1) else s1))"

text \<open>What the transport does. A socket opens from \<^verbatim>\<open>CONNECTING\<close> only, delivers frames
  while it is \<^verbatim>\<open>OPEN\<close>, reports an error in any state, and closes once; the event
  reaches the manager when the handler is still installed.\<close>

definition sock_open :: "('m, 'd) runtime \<Rightarrow> nat \<Rightarrow> ('m, 'd) state \<Rightarrow> ('m, 'd) state" where
  "sock_open rt i s =
     (if i < nextSock s \<and> readyState (socks s i) = CONNECTING
      then let s1 = s\<lparr>socks := (socks s)(i := (socks s i)\<lparr>readyState := OPEN\<rparr>)\<rparr> in
           if onopen (socks s1 i) then ws_onopen rt i s1 else s1
      else s)"

definition sock_message ::
  "('m, 'd) runtime \<Rightarrow> nat \<Rightarrow> string \<Rightarrow> ('m, 'd) state \<Rightarrow> ('m, 'd) state" where
  "sock_message rt i p s =
     (if i < nextSock s \<and> readyState (socks s i) = OPEN \<and> onmessage (socks s i)
      then ws_onmessage rt p s else s)"

definition sock_error :: "nat \<Rightarrow> ('m, 'd) state \<Rightarrow> ('m, 'd) state" where
  "sock_error i s =
     (if i < nextSock s \<and> onerror (socks s i)
      then ws_onerror s else s)"

definition sock_closing :: "nat \<Rightarrow> ('m, 'd) state \<Rightarrow> ('m, 'd) state" where
  "sock_closing i s =
     (if i < nextSock s \<and> readyState (socks s i) = OPEN
      then s\<lparr>socks := (socks s)(i := (socks s i)\<lparr>readyState := CLOSING\<rparr>)\<rparr>
      else s)"

definition sock_close ::
  "config \<Rightarrow> ('m, 'd) runtime \<Rightarrow> nat \<Rightarrow> ('m, 'd) state \<Rightarrow> ('m, 'd) state" where
  "sock_close cfg rt i s =
     (if i < nextSock s \<and> readyState (socks s i) \<noteq> CLOSED
      then let s1 = s\<lparr>socks := (socks s)(i := (socks s i)\<lparr>readyState := CLOSED\<rparr>)\<rparr> in
           if onclose (socks s1 i) then ws_onclose cfg rt i s1 else s1
      else s)"

fun step ::
  "config \<Rightarrow> ('m, 'd) runtime \<Rightarrow> ('m, 'd) state \<Rightarrow> 'm event \<Rightarrow> ('m, 'd) state" where
  "step cfg rt s (Render u) = render u s"
| "step cfg rt s CallConnect = returned (connect cfg rt s)"
| "step cfg rt s (Send msg) = returned (send rt msg s)"
| "step cfg rt s Disconnect = disconnect s"
| "step cfg rt s (TimerFire t) = fire_timer cfg rt t s"
| "step cfg rt s (SockOpen i) = sock_open rt i s"
| "step cfg rt s (SockMessage i p) = sock_message rt i p s"
| "step cfg rt s (SockError i) = sock_error i s"
| "step cfg rt s (SockClosing i) = sock_closing i s"
| "step cfg rt s (SockClose i) = sock_close cfg rt i s"

fun run ::
  "config \<Rightarrow> ('m, 'd) runtime \<Rightarrow> ('m, 'd) state \<Rightarrow> 'm event list \<Rightarrow> ('m, 'd) state" where
  "run cfg rt s [] = s"
| "run cfg rt s (e # es) = run cfg rt (step cfg rt s e) es"

subsection \<open>A concrete instance\<close>

text \<open>The options at their defaults, the address the dashboard connects to, and a
  runtime in which one message cannot be serialised, one frame cannot be decoded, one
  address is refused by the constructor, one payload makes the transport throw
  and close, and \<^verbatim>\<open>Math.pow\<close> returns the double nearest to the power.\<close>

definition example_cfg :: config where
  "example_cfg =
     \<lparr>reconnect = True, reconnectInterval = Finite 3000, maxReconnectAttempts = \<infinity>\<rparr>"

definition example_rt :: "(string, string) runtime" where
  "example_rt =
     \<lparr>stringify = (\<lambda>m. if m = ''circular'' then None else Some m),
      parse = (\<lambda>p. if p = ''{'' then None else Some p),
      constructs = (\<lambda>u. u \<noteq> ''bad url''),
      xmit = (\<lambda>t i p. if p = ''poison'' then Threw NowClosed else Accepted),
      math_pow = (\<lambda>x k. fl (x powi k))\<rparr>"

definition example_url :: "string option" where
  "example_url = Some ''wss://api.hyperliquid.xyz/ws''"

text \<open>The hook after its first render and the 100 ms delay (the socket is connecting),
  and after the transport has opened the socket.\<close>

definition connecting_state :: "(string, string) state" where
  "connecting_state = run example_cfg example_rt (mount example_url) [TimerFire 0]"

definition open_state :: "(string, string) state" where
  "open_state = run example_cfg example_rt (mount example_url) [TimerFire 0, SockOpen 0]"

text \<open>A runtime in which nothing throws, and the hook after a \<^verbatim>\<open>send\<close> before the socket
  exists and two more while it is connecting.\<close>

definition plain_rt :: "(string, string) runtime" where
  "plain_rt = \<lparr>stringify = Some, parse = Some, constructs = (\<lambda>u. True),
               xmit = (\<lambda>t i p. Accepted), math_pow = (\<lambda>x k. fl (x powi k))\<rparr>"

definition queued_state :: "(string, string) state" where
  "queued_state = run example_cfg plain_rt (mount example_url)
     [Send ''a'', TimerFire 0, Send ''b'', Send ''c'']"


text \<open>The hook after the open socket has closed on its own (a retry is scheduled) and
  the application has sent a message.\<close>

definition pending_state :: "(string, string) state" where
  "pending_state = run example_cfg example_rt open_state [SockClose 0, Send ''subscribe'']"

text \<open>Options that allow a single reconnection attempt, and the hook under them after
  its socket has opened and closed.\<close>

definition limited_cfg :: config where
  "limited_cfg =
     \<lparr>reconnect = True, reconnectInterval = Finite 3000, maxReconnectAttempts = 1\<rparr>"




text \<open>A runtime in which one message cannot be serialised and the transport throws on
  one payload but stays open, and the hook with four messages queued while its
  socket is connecting.\<close>

definition lossy_rt :: "(string, string) runtime" where
  "lossy_rt =
     \<lparr>stringify = (\<lambda>m. if m = ''circular'' then None else Some m),
      parse = Some, constructs = (\<lambda>u. True),
      xmit = (\<lambda>t i p. if p = ''busy'' then Threw StillOpen else Accepted),
      math_pow = (\<lambda>x k. fl (x powi k))\<rparr>"

definition lossy_state :: "(string, string) state" where
  "lossy_state = run example_cfg lossy_rt (mount example_url)
     [TimerFire 0, Send ''a'', Send ''circular'', Send ''busy'', Send ''b'']"

text \<open>The hook, allowed a single reconnection attempt, after the address changed while
  the server was closing the open socket: \<^verbatim>\<open>connect\<close> has constructed a second socket
  and left the first one with its handlers, and the first one has closed since.\<close>

definition raced_state :: "(string, string) state" where
  "raced_state = run limited_cfg example_rt (mount example_url)
     [TimerFire 0, SockOpen 0, Render (Some ''wss://api.hyperliquid-testnet.xyz/ws''),
      SockClosing 0, TimerFire 1, SockClose 0]"

text \<open>The hook after a message was queued and \<^verbatim>\<open>disconnect\<close> was called while the first
  socket was connecting.\<close>

definition closed_state :: "(string, string) state" where
  "closed_state = run example_cfg example_rt (mount example_url)
     [TimerFire 0, Send ''subscribe'', Disconnect]"

subsection \<open>Predicates on states\<close>




text \<open>A socket that is connecting and carries its \<^verbatim>\<open>onopen\<close> handler is the one in
  \<^verbatim>\<open>wsRef\<close>.\<close>

definition sole_attempt :: "('m, 'd) state \<Rightarrow> bool" where
  "sole_attempt s =
     (\<forall>i. readyState (socks s i) = CONNECTING \<and> onopen (socks s i) \<longrightarrow> wsRef s = Some i)"

text \<open>The manager is manually closed, \<^verbatim>\<open>connected\<close> is false and no socket is connecting
  with its \<^verbatim>\<open>onopen\<close> handler installed.\<close>

definition shut :: "('m, 'd) state \<Rightarrow> bool" where
  "shut s =
     (isManualCloseRef s \<and> \<not> connectedSig s \<and>
      (\<forall>i. \<not> (readyState (socks s i) = CONNECTING \<and> onopen (socks s i))))"

section \<open>Properties\<close>

lemmas helper_defs = truthy_def setTimeout_def clearTimeout_def detach_def ws_close_def
  after_state_def ws_send_def transmit_def ws_new_def
lemmas handler_defs = flush_one_def ws_onopen_def ws_onmessage_def ws_onerror_def
  ws_onclose_def schedule_retry_def reconnect_delay_def
lemmas connect_defs = connect_def ws_open_def connect_cleanup_def connect_try_def
  connect_catch_def
lemmas api_defs = send_def enqueue_def disconnect_def release_def
lemmas effect_defs = main_effect_def effect_cleanup_def render_def init_def mount_def
lemmas loop_defs = fire_timer_def sock_open_def sock_message_def sock_error_def
  sock_closing_def sock_close_def
lemmas example_defs = example_cfg_def example_rt_def example_url_def

subsection \<open>Doubles\<close>

lemma floor_log2:
  assumes "2 powi e \<le> \<bar>x\<bar>" and "\<bar>x\<bar> < 2 powi (e + 1)"
  shows "\<lfloor>log 2 \<bar>x\<bar>\<rfloor> = e"
proof -
  have "(0::real) < 2 powi e" by simp
  then have pos: "0 < \<bar>x\<bar>" using assms(1) by linarith
  have p: "(2::real) powr (real_of_int e + 1) = 2 powi (e + 1)"
    using powr_real_of_int' [of 2 "e + 1"] by simp
  have a: "real_of_int e \<le> log 2 \<bar>x\<bar>"
    using assms(1) pos by (simp add: le_log_iff powr_real_of_int')
  have b: "log 2 \<bar>x\<bar> < real_of_int (e + 1)"
    using assms(2) pos by (simp add: log_less_iff p)
  show ?thesis using a b by (simp add: floor_eq_iff)
qed

lemma fl_normal:
  assumes "2 powi e \<le> \<bar>x\<bar>" and "\<bar>x\<bar> < 2 powi (e + 1)" and "- 1022 \<le> e"
  shows "fl x =
         (let y = of_int (round_half_even (x / 2 powi (e - 52))) * 2 powi (e - 52)
          in if 2 powi 1024 \<le> \<bar>y\<bar> then (if 0 < x then PosInfinity else NegInfinity)
             else Finite y)"
proof -
  have nz: "x \<noteq> 0"
  proof
    assume "x = 0"
    then have "(2::real) powi e \<le> 0" using assms(1) by simp
    moreover have "(0::real) < 2 powi e" by simp
    ultimately show False by linarith
  qed
  have "max \<lfloor>log 2 \<bar>x\<bar>\<rfloor> (- 1022) = e"
    using floor_log2 [OF assms(1,2)] assms(3) by simp
  then show ?thesis using nz by (simp add: fl_def Let_def)
qed

lemma round_half_even_int: "round_half_even (of_int k) = k"
  by (simp add: round_half_even_def)

text \<open>A real number with at most 53 significant bits and an exponent in range is a
  double, and rounding keeps it.\<close>

lemma fl_exact:
  assumes "2 powi e \<le> \<bar>x\<bar>" and "\<bar>x\<bar> < 2 powi (e + 1)" and "- 1022 \<le> e" and "e \<le> 1023"
    and "x / 2 powi (e - 52) = of_int k"
  shows "fl x = Finite x"
proof -
  have u: "(2::real) powi (e - 52) \<noteq> 0" by simp
  have y: "of_int (round_half_even (x / 2 powi (e - 52))) * 2 powi (e - 52) = x"
    using assms(5) u by (simp add: round_half_even_int field_simps)
  have "(2::real) powi (e + 1) \<le> 2 powi 1024"
    using assms(4) by (intro power_int_increasing) simp_all
  then have "\<not> 2 powi 1024 \<le> \<bar>x\<bar>" using assms(2) by linarith
  then show ?thesis using fl_normal [OF assms(1,2,3)] y by (simp add: Let_def)
qed

lemma fl_values:
  "fl 1 = Finite 1"
  "fl (3 / 2) = Finite (3 / 2)"
  "fl (9 / 4) = Finite (9 / 4)"
  "fl (2187 / 128) = Finite (2187 / 128)"
  "fl 3000 = Finite 3000"
  "fl 4500 = Finite 4500"
  "fl 6750 = Finite 6750"
  "fl (1640250 / 32) = Finite (1640250 / 32)"
  "fl (3602879701896397 / 2 ^ 55) = Finite (3602879701896397 / 2 ^ 55)"
proof -
  show "fl 1 = Finite 1"
    by (rule fl_exact [where e = 0 and k = "2 ^ 52"]) (simp_all add: power_int_minus)
  show "fl (3 / 2) = Finite (3 / 2)"
    by (rule fl_exact [where e = 0 and k = "3 * 2 ^ 51"]) (simp_all add: power_int_minus)
  show "fl (9 / 4) = Finite (9 / 4)"
    by (rule fl_exact [where e = 1 and k = "9 * 2 ^ 49"]) (simp_all add: power_int_minus)
  show "fl (2187 / 128) = Finite (2187 / 128)"
    by (rule fl_exact [where e = 4 and k = "2187 * 2 ^ 41"]) (simp_all add: power_int_minus)
  show "fl 3000 = Finite 3000"
    by (rule fl_exact [where e = 11 and k = "3000 * 2 ^ 41"]) (simp_all add: power_int_minus)
  show "fl 4500 = Finite 4500"
    by (rule fl_exact [where e = 12 and k = "4500 * 2 ^ 40"]) (simp_all add: power_int_minus)
  show "fl 6750 = Finite 6750"
    by (rule fl_exact [where e = 12 and k = "6750 * 2 ^ 40"]) (simp_all add: power_int_minus)
  show "fl (1640250 / 32) = Finite (1640250 / 32)"
    by (rule fl_exact [where e = 15 and k = "1640250 * 2 ^ 32"])
      (simp_all add: power_int_minus)
  show "fl (3602879701896397 / 2 ^ 55) = Finite (3602879701896397 / 2 ^ 55)"
    by (rule fl_exact [where e = "- 4" and k = "3602879701896397 * 2"])
      (simp_all add: power_int_minus)
qed

text \<open>The product of the double nearest to 0.1 and 1.5 has 54 significant bits and lies
  half-way between two doubles; it is rounded to the even one.\<close>

lemma fl_tie: "fl (10808639105689191 / 2 ^ 56) = Finite (5404319552844596 / 2 ^ 55)"
proof -
  have "fl (10808639105689191 / 2 ^ 56) =
         (let y = of_int (round_half_even
                    ((10808639105689191 / 2 ^ 56) / 2 powi (- 3 - 52))) * 2 powi (- 3 - 52)
          in if 2 powi 1024 \<le> \<bar>y\<bar>
             then (if 0 < (10808639105689191 / 2 ^ 56 :: real) then PosInfinity
                   else NegInfinity)
             else Finite y)"
    by (rule fl_normal) (simp_all add: power_int_minus field_simps)
  moreover have "round_half_even ((10808639105689191 / 2 ^ 56) / 2 powi (- 3 - 52)) =
      5404319552844596"
    by (simp add: round_half_even_def power_int_minus Let_def)
  ultimately show ?thesis by (simp add: power_int_minus Let_def)
qed

text \<open>The same facts with the numerals evaluated.\<close>

lemmas fl_evals = fl_values [simplified] fl_tie [simplified]

subsection \<open>The concrete states\<close>

lemma connecting_state_simps:
  "wsRef connecting_state = Some 0"
  "readyState (socks connecting_state 0) = CONNECTING"
  "nextSock connecting_state = 1"
  "isConnectingRef connecting_state"
  "\<not> connectedSig connecting_state"
  "onopen (socks connecting_state 0)"
  "messageQueueRef connecting_state = []"
  "trace connecting_state = []"
  "nextTimer connecting_state = 1"
  "\<not> isManualCloseRef connecting_state"
  by (simp_all add: connecting_state_def example_defs effect_defs loop_defs connect_defs
      helper_defs Let_def)

lemma open_state_simps:
  "wsRef open_state = Some 0"
  "readyState (socks open_state 0) = OPEN"
  "nextSock open_state = 1"
  "connectedSig open_state"
  "onmessage (socks open_state 0)"
  "onerror (socks open_state 0)"
  "onclose (socks open_state 0)"
  "trace open_state = [CbOpen]"
  "messageQueueRef open_state = []"
  "reconnectAttemptsRef open_state = 0"
  "nextTimer open_state = 1"
  "\<not> isManualCloseRef open_state"
  "urlRef open_state = example_url"
  "connectRef open_state"
  "reconnectTimeoutRef open_state = None"
  "effectUrl open_state = example_url"
  by (simp_all add: open_state_def example_defs effect_defs loop_defs connect_defs
      helper_defs handler_defs Let_def)

subsection \<open>A second \<^verbatim>\<open>connect\<close>\<close>

text \<open>
  Claim C7. When \<^verbatim>\<open>wsRef\<close> holds a socket that is open or connecting, a call of
  \<^verbatim>\<open>connect\<close> returns normally in the state it was called in: no second socket is
  constructed and no cell of the manager changes. The address is not an argument of
  \<^verbatim>\<open>connect\<close>; it is read from \<^verbatim>\<open>urlRef\<close>, so it is unchanged by the call. A render
  with the unchanged address changes nothing either.
\<close>

theorem connect_noop_when_viable:
  assumes "wsRef s = Some i"
    and "readyState (socks s i) = OPEN \<or> readyState (socks s i) = CONNECTING"
  shows "connect cfg rt s = Done s \<and> step cfg rt s CallConnect = s \<and>
         step cfg rt s (Render (effectUrl s)) = s"
  using assms
  by (auto simp: connect_def ws_open_def connect_cleanup_def render_def split: option.splits)

theorem connect_noop_when_viable_witness:
  "wsRef connecting_state = Some 0 \<and> readyState (socks connecting_state 0) = CONNECTING \<and>
   connect example_cfg example_rt connecting_state = Done connecting_state \<and>
   step example_cfg example_rt connecting_state CallConnect = connecting_state \<and>
   wsRef open_state = Some 0 \<and> readyState (socks open_state 0) = OPEN \<and>
   nextSock (step example_cfg example_rt open_state CallConnect) = 1"
  using connect_noop_when_viable [of connecting_state 0 example_cfg example_rt]
    connect_noop_when_viable [of open_state 0 example_cfg example_rt]
  by (simp add: connecting_state_simps open_state_simps)

subsection \<open>Inbound frames\<close>

lemma sock_message_undecodable: "parse rt p = None \<Longrightarrow> sock_message rt i p s = s"
  by (simp add: sock_message_def ws_onmessage_def)

lemma run_frames:
  assumes "i < nextSock s" "readyState (socks s i) = OPEN" "onmessage (socks s i)"
  shows "run cfg rt s (map (SockMessage i) ps) =
         s\<lparr>trace := trace s @ map CbHandler (List.map_filter (parse rt) ps)\<rparr>"
  using assms
proof (induction ps arbitrary: s)
  case Nil
  then show ?case by simp
next
  case (Cons p ps)
  show ?case
  proof (cases "parse rt p")
    case None
    then show ?thesis using Cons by (simp add: sock_message_undecodable)
  next
    case (Some d)
    let ?s1 = "s\<lparr>trace := trace s @ [CbHandler d]\<rparr>"
    have st: "sock_message rt i p s = ?s1"
      using Cons.prems Some by (simp add: sock_message_def ws_onmessage_def)
    have "run cfg rt ?s1 (map (SockMessage i) ps) =
          ?s1\<lparr>trace := trace ?s1 @ map CbHandler (List.map_filter (parse rt) ps)\<rparr>"
      by (rule Cons.IH) (use Cons.prems in simp_all)
    then show ?thesis using Some st by simp
  qed
qed

text \<open>
  Claim C6. A frame that fails to decode leaves the whole state as it was: the
  handler is not invoked, \<^verbatim>\<open>connected\<close> keeps its value and the socket stays open.
  For every sequence of frames that an open socket delivers, the handler receives
  the decoded values of exactly the decodable frames, in the order of arrival,
  whatever undecodable frames stand between them, and nothing but the trace changes.
\<close>

theorem decode_failure_discarded:
  "(parse rt bad = None \<longrightarrow> step cfg rt s (SockMessage i bad) = s) \<and>
   (i < nextSock s \<and> readyState (socks s i) = OPEN \<and> onmessage (socks s i) \<longrightarrow>
      run cfg rt s (map (SockMessage i) frames) =
      s\<lparr>trace := trace s @ map CbHandler (List.map_filter (parse rt) frames)\<rparr>)"
  by (simp add: sock_message_undecodable run_frames)

theorem decode_failure_discarded_witness:
  "parse example_rt ''{'' = None \<and>
   step example_cfg example_rt open_state (SockMessage 0 ''{'') = open_state \<and>
   0 < nextSock open_state \<and> readyState (socks open_state 0) = OPEN \<and>
   onmessage (socks open_state 0) \<and>
   trace (run example_cfg example_rt open_state
      (map (SockMessage 0) [''1'', ''{'', ''2''])) = [CbOpen, CbHandler ''1'', CbHandler ''2''] \<and>
   connectedSig (run example_cfg example_rt open_state
      (map (SockMessage 0) [''1'', ''{'', ''2'']))"
  using decode_failure_discarded
    [of example_rt "''{''" example_cfg open_state 0 "[''1'', ''{'', ''2'']"]
  by (simp add: open_state_simps example_rt_def)

subsection \<open>The flush of the queue keeps every cell but the sockets and the trace\<close>

lemma flush_one_frame:
  "flush_one rt i m s =
   s\<lparr>socks := socks (flush_one rt i m s), trace := trace (flush_one rt i m s)\<rparr>"
  by (simp add: flush_one_def transmit_def ws_send_def split: option.splits xmit_result.splits)

lemma flush_frame:
  "flush rt i q s = s\<lparr>socks := socks (flush rt i q s), trace := trace (flush rt i q s)\<rparr>"
proof (induction q arbitrary: s)
  case Nil
  show ?case by simp
next
  case (Cons m q)
  let ?s1 = "flush_one rt i m s"
  let ?r = "flush rt i q ?s1"
  have "?r = ?s1\<lparr>socks := socks ?r, trace := trace ?r\<rparr>" by (rule Cons.IH)
  also have "\<dots> = (s\<lparr>socks := socks ?s1, trace := trace ?s1\<rparr>)
                     \<lparr>socks := socks ?r, trace := trace ?r\<rparr>"
    by (subst flush_one_frame) simp
  finally show ?case by simp
qed

lemma flush_cells:
  "connectedSig (flush rt i q s) = connectedSig s"
  "isManualCloseRef (flush rt i q s) = isManualCloseRef s"
  "nextSock (flush rt i q s) = nextSock s"
  "nextTimer (flush rt i q s) = nextTimer s"
  "timers (flush rt i q s) = timers s"
  "messageQueueRef (flush rt i q s) = messageQueueRef s"
  "reconnectAttemptsRef (flush rt i q s) = reconnectAttemptsRef s"
  "wsRef (flush rt i q s) = wsRef s"
  "effectUrl (flush rt i q s) = effectUrl s"
  by (subst flush_frame, simp)+

subsection \<open>The delay before a reconnection\<close>







subsection \<open>The \<^verbatim>\<open>connected\<close> signal\<close>

lemma schedule_retry_connected: "connectedSig (schedule_retry cfg rt k s) = connectedSig s"
  by (simp add: schedule_retry_def setTimeout_def Let_def)

lemma release_connected: "\<not> connectedSig (release s)"
  by (simp add: release_def Let_def split: option.splits)

lemma connect_connected: "connectedSig (returned (connect cfg rt s)) \<Longrightarrow> connectedSig s"
  by (auto simp: connect_defs ws_new_def ws_close_def detach_def schedule_retry_connected
      Let_def split: option.splits if_splits)

lemma send_connected: "connectedSig (returned (send rt m s)) = connectedSig s"
  by (auto simp: send_def enqueue_def transmit_def ws_send_def
      split: option.splits xmit_result.splits)

lemma fire_timer_connected: "connectedSig (fire_timer cfg rt t s) \<Longrightarrow> connectedSig s"
  by (auto simp: fire_timer_def Let_def split: option.splits timer_kind.splits if_splits
      dest!: connect_connected)

lemma render_connected: "connectedSig (render u s) \<Longrightarrow> connectedSig s"
  by (auto simp: render_def main_effect_def effect_cleanup_def setTimeout_def clearTimeout_def
      release_connected Let_def split: option.splits if_splits)

lemma sock_close_connected: "connectedSig (sock_close cfg rt i s) \<Longrightarrow> connectedSig s"
  by (auto simp: sock_close_def ws_onclose_def schedule_retry_connected Let_def
      split: if_splits)

lemma sock_open_connected:
  "connectedSig (sock_open rt i s) =
   (connectedSig s \<or>
    i < nextSock s \<and> readyState (socks s i) = CONNECTING \<and> onopen (socks s i))"
  by (auto simp: sock_open_def ws_onopen_def flush_cells Let_def)

text \<open>
  Claim C5, as stated, fails: \<^verbatim>\<open>ws.onerror\<close> does not touch \<^verbatim>\<open>connected\<close> (the source
  says so in a comment and leaves it to \<^verbatim>\<open>ws.onclose\<close>). On the open socket of the
  example an error event reaches \<^verbatim>\<open>onError\<close> and \<^verbatim>\<open>connected\<close> is still true.
\<close>

theorem connected_error_counterexample:
  "connectedSig open_state \<and> 0 < nextSock open_state \<and> onerror (socks open_state 0) \<and>
   trace (step example_cfg example_rt open_state (SockError 0)) = [CbOpen, CbError] \<and>
   connectedSig (step example_cfg example_rt open_state (SockError 0))"
  by (simp add: open_state_simps sock_error_def ws_onerror_def)

text \<open>
  Claim C5, amended. From false, \<^verbatim>\<open>connected\<close> becomes true in one event exactly when
  the event is the opening of a connecting socket that still carries its \<^verbatim>\<open>onopen\<close>
  handler. It is false after \<^verbatim>\<open>disconnect\<close> and after a close event that reaches
  \<^verbatim>\<open>ws.onclose\<close>. A transport error event leaves it as it was.
\<close>

theorem connected_transitions:
  "(\<not> connectedSig s \<longrightarrow>
      connectedSig (step cfg rt s e) =
      (\<exists>i. e = SockOpen i \<and> i < nextSock s \<and> readyState (socks s i) = CONNECTING \<and>
           onopen (socks s i))) \<and>
   \<not> connectedSig (step cfg rt s Disconnect) \<and>
   (i < nextSock s \<and> readyState (socks s i) \<noteq> CLOSED \<and> onclose (socks s i) \<longrightarrow>
      \<not> connectedSig (step cfg rt s (SockClose i))) \<and>
   connectedSig (step cfg rt s (SockError i)) = connectedSig s"
proof -
  have a: "connectedSig (step cfg rt s e) =
      (\<exists>i. e = SockOpen i \<and> i < nextSock s \<and> readyState (socks s i) = CONNECTING \<and>
           onopen (socks s i))" if n: "\<not> connectedSig s"
  proof (cases e)
    case (Render u)
    then show ?thesis using n render_connected [of u s] by auto
  next
    case CallConnect
    then show ?thesis using n connect_connected [of cfg rt s] by auto
  next
    case (Send m)
    then show ?thesis using n by (simp add: send_connected)
  next
    case Disconnect
    then show ?thesis by (simp add: disconnect_def release_connected)
  next
    case (TimerFire t)
    then show ?thesis using n fire_timer_connected [of cfg rt t s] by auto
  next
    case (SockOpen j)
    then show ?thesis using n by (simp add: sock_open_connected)
  next
    case (SockMessage j p)
    then show ?thesis using n
      by (simp add: sock_message_def ws_onmessage_def split: option.splits)
  next
    case (SockError j)
    then show ?thesis using n by (simp add: sock_error_def ws_onerror_def)
  next
    case (SockClosing j)
    then show ?thesis using n by (simp add: sock_closing_def)
  next
    case (SockClose j)
    then show ?thesis using n sock_close_connected [of cfg rt j s] by auto
  qed
  have b: "\<not> connectedSig (step cfg rt s Disconnect)"
    by (simp add: disconnect_def release_connected)
  have c: "\<not> connectedSig (step cfg rt s (SockClose i))"
    if "i < nextSock s \<and> readyState (socks s i) \<noteq> CLOSED \<and> onclose (socks s i)"
    using that by (simp add: sock_close_def ws_onclose_def schedule_retry_connected Let_def)
  have d: "connectedSig (step cfg rt s (SockError i)) = connectedSig s"
    by (simp add: sock_error_def ws_onerror_def)
  from a b c d show ?thesis by blast
qed

theorem connected_transitions_witness:
  "\<not> connectedSig connecting_state \<and>
   connectedSig (step example_cfg example_rt connecting_state (SockOpen 0)) \<and>
   0 < nextSock open_state \<and> readyState (socks open_state 0) \<noteq> CLOSED \<and>
   onclose (socks open_state 0) \<and> connectedSig open_state \<and>
   \<not> connectedSig (step example_cfg example_rt open_state (SockClose 0)) \<and>
   \<not> connectedSig (step example_cfg example_rt open_state Disconnect)"
  using connected_transitions [of connecting_state example_cfg example_rt "SockOpen 0" 0]
    connected_transitions [of open_state example_cfg example_rt "SockOpen 0" 0]
  by (simp add: connecting_state_simps open_state_simps)

subsection \<open>\<^verbatim>\<open>send\<close>\<close>

lemma transmit_throw_queue:
  "transmit rt ws msg s = Throw s1 \<Longrightarrow>
   messageQueueRef s1 = messageQueueRef s \<and> trace s1 = trace s"
  by (auto simp: transmit_def ws_send_def split: option.splits xmit_result.splits)

text \<open>
  Claim C4, as stated, fails in its second half: the \<^verbatim>\<open>catch\<close> of \<^verbatim>\<open>send\<close> queues the
  message only if the socket still reports \<^verbatim>\<open>OPEN\<close>. In the example the socket is
  open, the transport throws on the payload and reports \<^verbatim>\<open>CLOSED\<close> afterwards, and
  the message is neither transmitted nor queued.
\<close>

theorem send_drops_counterexample:
  "wsRef open_state = Some 0 \<and> readyState (socks open_state 0) = OPEN \<and>
   transmit example_rt 0 ''poison'' open_state =
     Throw (open_state\<lparr>socks := (socks open_state)
              (0 := (socks open_state 0)\<lparr>readyState := CLOSED\<rparr>)\<rparr>) \<and>
   messageQueueRef (returned (send example_rt ''poison'' open_state)) = [] \<and>
   Transmit 0 ''poison'' \<notin> set (trace (returned (send example_rt ''poison'' open_state)))"
  by (simp add: open_state_simps send_def transmit_def ws_send_def example_rt_def
      after_state_def)

text \<open>
  Claim C4, amended. \<^verbatim>\<open>send\<close> always returns normally. When the socket is open and
  the transmission throws, the message is appended to the queue if the socket still
  reports \<^verbatim>\<open>OPEN\<close> after the failure; otherwise the queue is left as it was. In both
  cases nothing is added to the trace.
\<close>

theorem send_never_raises:
  "(\<exists>s'. send rt msg s = Done s') \<and>
   (wsRef s = Some ws \<and> readyState (socks s ws) = OPEN \<and> transmit rt ws msg s = Throw s1 \<longrightarrow>
      messageQueueRef (returned (send rt msg s)) =
        (if readyState (socks s1 ws) = OPEN then messageQueueRef s @ [msg]
         else messageQueueRef s) \<and>
      trace (returned (send rt msg s)) = trace s)"
  by (auto simp: send_def enqueue_def dest: transmit_throw_queue
      split: option.splits res.splits)

theorem send_never_raises_witness:
  "wsRef open_state = Some 0 \<and> readyState (socks open_state 0) = OPEN \<and>
   transmit example_rt 0 ''circular'' open_state = Throw open_state \<and>
   messageQueueRef (returned (send example_rt ''circular'' open_state)) = [''circular'']"
  using send_never_raises [of example_rt "''circular''" open_state 0 open_state]
  by (simp add: open_state_simps transmit_def example_rt_def)

subsection \<open>The queue and its flush\<close>

lemma flush_one_trace:
  "trace (flush_one rt i m s) = trace s \<or>
   (\<exists>p. stringify rt m = Some p \<and> trace (flush_one rt i m s) = trace s @ [Transmit i p])"
  by (auto simp: flush_one_def transmit_def ws_send_def
      split: option.splits xmit_result.splits)

lemma flush_trace:
  "\<exists>ps. subseq ps (List.map_filter (stringify rt) q) \<and>
        trace (flush rt i q s) = trace s @ map (Transmit i) ps"
proof (induction q arbitrary: s)
  case Nil
  show ?case by simp
next
  case (Cons m q)
  let ?s1 = "flush_one rt i m s"
  obtain ps where ps: "subseq ps (List.map_filter (stringify rt) q)"
      "trace (flush rt i q ?s1) = trace ?s1 @ map (Transmit i) ps"
    using Cons.IH [of ?s1] by blast
  from flush_one_trace [of rt i m s] show ?case
  proof
    assume same: "trace ?s1 = trace s"
    have "subseq ps (List.map_filter (stringify rt) (m # q))"
      using ps(1) by (cases "stringify rt m") (simp_all add: list_emb_Cons)
    then show ?thesis using ps(2) same by auto
  next
    assume "\<exists>p. stringify rt m = Some p \<and> trace ?s1 = trace s @ [Transmit i p]"
    then obtain p where p: "stringify rt m = Some p" "trace ?s1 = trace s @ [Transmit i p]"
      by blast
    have "subseq (p # ps) (List.map_filter (stringify rt) (m # q))"
      using ps(1) p(1) by simp
    moreover have "trace (flush rt i (m # q) s) = trace s @ map (Transmit i) (p # ps)"
      using ps(2) p(2) by simp
    ultimately show ?thesis by blast
  qed
qed

lemma flush_all:
  assumes "readyState (socks s i) = OPEN"
    and "\<forall>m \<in> set q. stringify rt m \<noteq> None"
    and "\<forall>t p. xmit rt t i p = Accepted"
  shows "flush rt i q s =
         s\<lparr>trace := trace s @ map (\<lambda>m. Transmit i (the (stringify rt m))) q\<rparr>"
  using assms
proof (induction q arbitrary: s)
  case Nil
  show ?case by simp
next
  case (Cons m q)
  obtain p where p: "stringify rt m = Some p" using Cons.prems(2) by auto
  let ?s1 = "s\<lparr>trace := trace s @ [Transmit i p]\<rparr>"
  have one: "flush_one rt i m s = ?s1"
    using Cons.prems p by (simp add: flush_one_def transmit_def ws_send_def)
  have "flush rt i q ?s1 =
        ?s1\<lparr>trace := trace ?s1 @ map (\<lambda>m. Transmit i (the (stringify rt m))) q\<rparr>"
    by (rule Cons.IH) (use Cons.prems in simp_all)
  then show ?case using one p by simp
qed

lemma send_queues:
  "\<not> ws_open s \<Longrightarrow> send rt msg s = Done (s\<lparr>messageQueueRef := messageQueueRef s @ [msg]\<rparr>)"
  by (simp add: send_def ws_open_def enqueue_def split: option.splits)

lemma run_sends:
  "\<not> ws_open s \<Longrightarrow>
   run cfg rt s (map Send msgs) = s\<lparr>messageQueueRef := messageQueueRef s @ msgs\<rparr>"
proof (induction msgs arbitrary: s)
  case Nil
  show ?case by simp
next
  case (Cons m msgs)
  let ?s1 = "s\<lparr>messageQueueRef := messageQueueRef s @ [m]\<rparr>"
  have "\<not> ws_open ?s1" using Cons.prems by (simp add: ws_open_def split: option.splits)
  then have "run cfg rt ?s1 (map Send msgs) =
             ?s1\<lparr>messageQueueRef := messageQueueRef ?s1 @ msgs\<rparr>"
    by (rule Cons.IH)
  then show ?case using Cons.prems by (simp add: send_queues)
qed

text \<open>A transport whose verdict on a payload does not depend on the history and whose
  throwing send leaves the socket open: a message that fails is dropped alone.\<close>

lemma flush_steady:
  assumes "readyState (socks s i) = OPEN"
    and "\<forall>t p. xmit rt t i p = acc p"
    and "\<forall>p. acc p = Accepted \<or> acc p = Threw StillOpen"
  shows "readyState (socks (flush rt i q s) i) = OPEN \<and>
         trace (flush rt i q s) =
           trace s @ map (Transmit i)
             (filter (\<lambda>p. acc p = Accepted) (List.map_filter (stringify rt) q))"
  using assms(1)
proof (induction q arbitrary: s)
  case Nil
  then show ?case by simp
next
  case (Cons m q)
  let ?s1 = "flush_one rt i m s"
  have one: "readyState (socks ?s1 i) = OPEN \<and>
        trace ?s1 = trace s @ map (Transmit i)
          (filter (\<lambda>p. acc p = Accepted) (List.map_filter (stringify rt) [m]))"
  proof (cases "stringify rt m")
    case None
    then show ?thesis using Cons.prems by (simp add: flush_one_def transmit_def)
  next
    case (Some p)
    from assms(3) have "acc p = Accepted \<or> acc p = Threw StillOpen" by blast
    then show ?thesis
      using Some Cons.prems assms(2)
      by (auto simp: flush_one_def transmit_def ws_send_def after_state_def)
  qed
  have rest: "readyState (socks (flush rt i q ?s1) i) = OPEN \<and>
         trace (flush rt i q ?s1) =
           trace ?s1 @ map (Transmit i)
             (filter (\<lambda>p. acc p = Accepted) (List.map_filter (stringify rt) q))"
    using one by (intro Cons.IH) simp
  show ?case using one rest by (cases "stringify rt m") simp_all
qed

text \<open>
  Claim C2, as stated, fails: a queued message whose transmission throws during the
  flush is logged and dropped. Of three messages sent while the socket of the
  example is connecting, the one that cannot be serialised never reaches the
  transport and is no longer in the queue after the socket has opened.
\<close>

theorem flush_counterexample:
  "\<not> connectedSig connecting_state \<and>
   messageQueueRef (run example_cfg example_rt connecting_state
      [Send ''a'', Send ''circular'', Send ''b'']) = [''a'', ''circular'', ''b''] \<and>
   trace (run example_cfg example_rt connecting_state
      [Send ''a'', Send ''circular'', Send ''b'', SockOpen 0]) =
     [Transmit 0 ''a'', Transmit 0 ''b'', CbOpen] \<and>
   messageQueueRef (run example_cfg example_rt connecting_state
      [Send ''a'', Send ''circular'', Send ''b'', SockOpen 0]) = []"
  by (simp add: connecting_state_def example_defs effect_defs loop_defs connect_defs
      helper_defs handler_defs api_defs Let_def)

text \<open>
  Claim C2, amended. While \<^verbatim>\<open>wsRef\<close> holds no open socket, every \<^verbatim>\<open>send\<close> appends its
  message to the queue and changes nothing else. When a connecting socket that
  carries its handlers opens, \<^verbatim>\<open>ws.onopen\<close> empties the queue and hands queued messages
  to that socket before it invokes \<^verbatim>\<open>onOpen\<close>. A message whose serialisation or send
  throws is dropped and the loop goes on with the next one: when the verdict of the
  transport on a payload does not depend on the history and a send that throws
  leaves the socket open, the payloads transmitted are exactly those of the queued
  messages that can be serialised and that the transport accepts, once each, in the
  order of the queue; so when the transport accepts every payload they are exactly
  the serialisable messages, and when every message can be serialised as well,
  exactly the queue. In general (a send that throws may close the socket, after
  which the remaining messages are skipped) the payloads transmitted are, in order,
  a subsequence of the serialised queue.
\<close>

theorem queue_flushed_in_order:
  "(\<not> ws_open s \<longrightarrow>
      run cfg rt s (map Send msgs) = s\<lparr>messageQueueRef := messageQueueRef s @ msgs\<rparr>) \<and>
   (i < nextSock s \<and> readyState (socks s i) = CONNECTING \<and> onopen (socks s i) \<longrightarrow>
      messageQueueRef (step cfg rt s (SockOpen i)) = [] \<and>
      (\<exists>ps. subseq ps (List.map_filter (stringify rt) (messageQueueRef s)) \<and>
            trace (step cfg rt s (SockOpen i)) = trace s @ map (Transmit i) ps @ [CbOpen]) \<and>
      ((\<forall>t p. xmit rt t i p = acc p) \<and> (\<forall>p. acc p = Accepted \<or> acc p = Threw StillOpen) \<longrightarrow>
         trace (step cfg rt s (SockOpen i)) =
           trace s @
           map (Transmit i)
             (filter (\<lambda>p. acc p = Accepted)
               (List.map_filter (stringify rt) (messageQueueRef s))) @
           [CbOpen]) \<and>
      ((\<forall>t p. xmit rt t i p = Accepted) \<longrightarrow>
         trace (step cfg rt s (SockOpen i)) =
           trace s @
           map (Transmit i) (List.map_filter (stringify rt) (messageQueueRef s)) @
           [CbOpen]) \<and>
      ((\<forall>m \<in> set (messageQueueRef s). stringify rt m \<noteq> None) \<and>
       (\<forall>t p. xmit rt t i p = Accepted) \<longrightarrow>
         trace (step cfg rt s (SockOpen i)) =
           trace s @ map (\<lambda>m. Transmit i (the (stringify rt m))) (messageQueueRef s) @
           [CbOpen]))"
proof -
  let ?s1 = "s\<lparr>socks := (socks s)(i := (socks s i)\<lparr>readyState := OPEN\<rparr>)\<rparr>"
  let ?s2 = "?s1\<lparr>isConnectingRef := False, connectedSig := True, reconnectAttemptsRef := 0,
     messageQueueRef := []\<rparr>"
  let ?q = "messageQueueRef s"
  have op: "sock_open rt i s =
      (flush rt i ?q ?s2)\<lparr>trace := trace (flush rt i ?q ?s2) @ [CbOpen]\<rparr>"
    if "i < nextSock s \<and> readyState (socks s i) = CONNECTING \<and> onopen (socks s i)"
    using that by (simp add: sock_open_def ws_onopen_def Let_def)
  have b1: "messageQueueRef (step cfg rt s (SockOpen i)) = []"
    if h: "i < nextSock s \<and> readyState (socks s i) = CONNECTING \<and> onopen (socks s i)"
    by (simp add: op [OF h] flush_cells)
  have b2: "\<exists>ps. subseq ps (List.map_filter (stringify rt) ?q) \<and>
            trace (step cfg rt s (SockOpen i)) = trace s @ map (Transmit i) ps @ [CbOpen]"
    if h: "i < nextSock s \<and> readyState (socks s i) = CONNECTING \<and> onopen (socks s i)"
    using flush_trace [of rt ?q i ?s2] by (auto simp: op [OF h])
  have b3: "trace (step cfg rt s (SockOpen i)) =
           trace s @
           map (Transmit i)
             (filter (\<lambda>p. a p = Accepted) (List.map_filter (stringify rt) ?q)) @
           [CbOpen]"
    if h: "i < nextSock s \<and> readyState (socks s i) = CONNECTING \<and> onopen (socks s i)"
      and ok: "(\<forall>t p. xmit rt t i p = a p) \<and> (\<forall>p. a p = Accepted \<or> a p = Threw StillOpen)"
    for a
  proof -
    have "readyState (socks ?s2 i) = OPEN" by simp
    then have "trace (flush rt i ?q ?s2) =
          trace ?s2 @ map (Transmit i)
            (filter (\<lambda>p. a p = Accepted) (List.map_filter (stringify rt) ?q))"
      using ok flush_steady [of ?s2 i rt a ?q] by blast
    then show ?thesis by (simp add: op [OF h])
  qed
  have b4: "trace (step cfg rt s (SockOpen i)) =
           trace s @ map (Transmit i) (List.map_filter (stringify rt) ?q) @ [CbOpen]"
    if h: "i < nextSock s \<and> readyState (socks s i) = CONNECTING \<and> onopen (socks s i)"
      and ok: "\<forall>t p. xmit rt t i p = Accepted"
    using b3 [OF h, of "\<lambda>p. Accepted"] ok by simp
  have b5: "trace (step cfg rt s (SockOpen i)) =
           trace s @ map (\<lambda>m. Transmit i (the (stringify rt m))) ?q @ [CbOpen]"
    if h: "i < nextSock s \<and> readyState (socks s i) = CONNECTING \<and> onopen (socks s i)"
      and ok: "(\<forall>m \<in> set ?q. stringify rt m \<noteq> None) \<and> (\<forall>t p. xmit rt t i p = Accepted)"
  proof -
    have "flush rt i ?q ?s2 =
          ?s2\<lparr>trace := trace ?s2 @ map (\<lambda>m. Transmit i (the (stringify rt m))) ?q\<rparr>"
      by (rule flush_all) (use ok in simp_all)
    then show ?thesis by (simp add: op [OF h])
  qed
  from run_sends [of s cfg rt msgs] b1 b2 b3 [of acc] b4 b5 show ?thesis by blast
qed

lemma queued_state_simps:
  "wsRef queued_state = Some 0"
  "readyState (socks queued_state 0) = CONNECTING"
  "nextSock queued_state = 1"
  "onopen (socks queued_state 0)"
  "messageQueueRef queued_state = [''a'', ''b'', ''c'']"
  "trace queued_state = []"
  by (simp_all add: queued_state_def plain_rt_def example_defs effect_defs loop_defs
      connect_defs helper_defs api_defs Let_def)

lemma lossy_state_simps:
  "readyState (socks lossy_state 0) = CONNECTING"
  "nextSock lossy_state = 1"
  "onopen (socks lossy_state 0)"
  "messageQueueRef lossy_state = [''a'', ''circular'', ''busy'', ''b'']"
  "trace lossy_state = []"
  by (simp_all add: lossy_state_def lossy_rt_def example_defs effect_defs loop_defs
      connect_defs helper_defs api_defs Let_def)

theorem queue_flushed_in_order_witness:
  "\<not> ws_open connecting_state \<and>
   messageQueueRef (run example_cfg plain_rt connecting_state (map Send [''d'', ''e''])) =
     [''d'', ''e''] \<and>
   0 < nextSock queued_state \<and> readyState (socks queued_state 0) = CONNECTING \<and>
   onopen (socks queued_state 0) \<and>
   messageQueueRef queued_state = [''a'', ''b'', ''c''] \<and>
   stringify plain_rt = Some \<and> (\<forall>t p. xmit plain_rt t 0 p = Accepted) \<and>
   messageQueueRef (step example_cfg plain_rt queued_state (SockOpen 0)) = [] \<and>
   trace (step example_cfg plain_rt queued_state (SockOpen 0)) =
     [Transmit 0 ''a'', Transmit 0 ''b'', Transmit 0 ''c'', CbOpen] \<and>
   0 < nextSock lossy_state \<and> readyState (socks lossy_state 0) = CONNECTING \<and>
   onopen (socks lossy_state 0) \<and>
   messageQueueRef lossy_state = [''a'', ''circular'', ''busy'', ''b''] \<and>
   stringify lossy_rt ''circular'' = None \<and>
   (\<forall>t. xmit lossy_rt t 0 ''busy'' = Threw StillOpen) \<and>
   trace (step example_cfg lossy_rt lossy_state (SockOpen 0)) =
     [Transmit 0 ''a'', Transmit 0 ''b'', CbOpen]"
  using queue_flushed_in_order
      [of connecting_state example_cfg plain_rt "[''d'', ''e'']" 0 "\<lambda>p. Accepted"]
    queue_flushed_in_order [of queued_state example_cfg plain_rt "[]" 0 "\<lambda>p. Accepted"]
    queue_flushed_in_order [of lossy_state example_cfg lossy_rt "[]" 0
      "\<lambda>p. if p = ''busy'' then Threw StillOpen else Accepted"]
  by (simp add: connecting_state_simps queued_state_simps lossy_state_simps ws_open_def
      plain_rt_def lossy_rt_def)

subsection \<open>\<^verbatim>\<open>disconnect\<close>\<close>

lemma fire_timer_manual:
  "isManualCloseRef s \<Longrightarrow> fire_timer cfg rt t s = clearTimeout t s"
  by (auto simp: fire_timer_def clearTimeout_def fun_upd_idem Let_def
      split: option.splits timer_kind.splits)

lemma connect_manual: "isManualCloseRef s \<Longrightarrow> connect cfg rt s = Done s"
  by (simp add: connect_def split: option.splits)

lemma schedule_retry_manual: "isManualCloseRef s \<Longrightarrow> schedule_retry cfg rt k s = s"
  by (simp add: schedule_retry_def)

lemma disconnect_cells:
  "messageQueueRef (disconnect s) = messageQueueRef s"
  "isManualCloseRef (disconnect s)"
  "\<not> connectedSig (disconnect s)"
  "\<not> isConnectingRef (disconnect s)"
  "wsRef (disconnect s) = None"
  "reconnectTimeoutRef (disconnect s) = None"
  "reconnectAttemptsRef (disconnect s) = reconnectAttemptsRef s"
  "urlRef (disconnect s) = urlRef s"
  "connectRef (disconnect s) = connectRef s"
  "nextSock (disconnect s) = nextSock s"
  "nextTimer (disconnect s) = nextTimer s"
  "effectUrl (disconnect s) = effectUrl s"
  "effectTimeout (disconnect s) = effectTimeout s"
  by (simp_all add: disconnect_def release_def clearTimeout_def detach_def ws_close_def Let_def
      split: option.splits)

lemma disconnect_timer:
  "timers (disconnect s) t = (if reconnectTimeoutRef s = Some t then None else timers s t)"
  by (simp add: disconnect_def release_def clearTimeout_def detach_def ws_close_def Let_def
      split: option.splits)

lemma disconnect_sock:
  "socks (disconnect s) j =
   (if wsRef s = Some j
    then (socks s j)\<lparr>readyState :=
             (if readyState (socks s j) = CONNECTING \<or> readyState (socks s j) = OPEN
              then CLOSING else readyState (socks s j)),
           onopen := False, onmessage := False, onerror := False, onclose := False\<rparr>
    else socks s j)"
  by (simp add: disconnect_def release_def clearTimeout_def detach_def ws_close_def Let_def
      split: option.splits)

lemma disconnect_trace:
  "trace (disconnect s) =
   (case wsRef s of
      None \<Rightarrow> trace s
    | Some i \<Rightarrow>
        if readyState (socks s i) = CONNECTING \<or> readyState (socks s i) = OPEN
        then trace s @ [CloseCall i] else trace s)"
  by (auto simp: disconnect_def release_def clearTimeout_def detach_def ws_close_def Let_def
      split: option.splits)

lemma sock_close_manual:
  "isManualCloseRef s \<Longrightarrow>
   nextTimer (sock_close cfg rt j s) = nextTimer s \<and> timers (sock_close cfg rt j s) = timers s"
  by (simp add: sock_close_def ws_onclose_def schedule_retry_manual Let_def)

lemma pending_state_simps:
  "messageQueueRef pending_state = [''subscribe'']"
  "reconnectTimeoutRef pending_state = Some 1"
  "timers pending_state (Suc 0) = Some \<lparr>kind = RetryAfterClose, delay = Finite 3000\<rparr>"
  "wsRef pending_state = None"
  "nextSock pending_state = 1"
  "effectUrl pending_state = example_url"
  "\<not> isManualCloseRef pending_state"
  by (simp_all add: pending_state_def open_state_def example_defs effect_defs loop_defs
      connect_defs helper_defs handler_defs api_defs fl_evals Let_def)

subsection \<open>After a manual close\<close>

lemma send_cells:
  "isManualCloseRef (returned (send rt m s)) = isManualCloseRef s"
  "nextSock (returned (send rt m s)) = nextSock s"
  "nextTimer (returned (send rt m s)) = nextTimer s"
  "reconnectAttemptsRef (returned (send rt m s)) = reconnectAttemptsRef s"
  by (auto simp: send_def enqueue_def transmit_def ws_send_def
      split: option.splits xmit_result.splits)

lemma manual_step:
  assumes "isManualCloseRef s" and "\<not> is_render e"
  shows "isManualCloseRef (step cfg rt s e) \<and> nextSock (step cfg rt s e) = nextSock s"
proof (cases e)
  case (Render u)
  then show ?thesis using assms by simp
next
  case CallConnect
  then show ?thesis using assms by (simp add: connect_manual)
next
  case (Send m)
  then show ?thesis using assms by (simp add: send_cells)
next
  case Disconnect
  then show ?thesis by (simp add: disconnect_cells)
next
  case (TimerFire t)
  then show ?thesis using assms by (simp add: fire_timer_manual clearTimeout_def)
next
  case (SockOpen j)
  then show ?thesis using assms by (simp add: sock_open_def ws_onopen_def flush_cells Let_def)
next
  case (SockMessage j p)
  then show ?thesis using assms
    by (simp add: sock_message_def ws_onmessage_def split: option.splits)
next
  case (SockError j)
  then show ?thesis using assms by (simp add: sock_error_def ws_onerror_def)
next
  case (SockClosing j)
  then show ?thesis using assms by (simp add: sock_closing_def)
next
  case (SockClose j)
  then show ?thesis using assms
    by (simp add: sock_close_def ws_onclose_def schedule_retry_manual Let_def)
qed

lemma manual_run:
  "isManualCloseRef s \<Longrightarrow> \<forall>e \<in> set es. \<not> is_render e \<Longrightarrow>
   isManualCloseRef (run cfg rt s es) \<and> nextSock (run cfg rt s es) = nextSock s"
proof (induction es arbitrary: s)
  case Nil
  then show ?case by simp
next
  case (Cons e es)
  have st: "isManualCloseRef (step cfg rt s e) \<and> nextSock (step cfg rt s e) = nextSock s"
    using Cons.prems by (intro manual_step) simp_all
  have "isManualCloseRef (run cfg rt (step cfg rt s e) es) \<and>
        nextSock (run cfg rt (step cfg rt s e) es) = nextSock (step cfg rt s e)"
    using st Cons.prems by (intro Cons.IH) simp_all
  then show ?case using st by simp
qed

text \<open>Only the main effect changes the \<^verbatim>\<open>url\<close> of the live effect, and a render with the
  same \<^verbatim>\<open>url\<close> does nothing; such renders can be left out of a run.\<close>

lemma step_effectUrl: "\<not> is_render e \<Longrightarrow> effectUrl (step cfg rt s e) = effectUrl s"
proof (cases e)
  case (Render u)
  assume "\<not> is_render e" then show ?thesis using Render by simp
next
  case CallConnect
  have "effectUrl (returned (connect cfg rt s)) = effectUrl s"
    by (auto simp: connect_defs ws_new_def ws_close_def detach_def schedule_retry_def
        setTimeout_def Let_def split: option.splits)
  then show ?thesis using CallConnect by simp
next
  case (Send m)
  have "effectUrl (returned (send rt m s)) = effectUrl s"
    by (auto simp: send_def enqueue_def transmit_def ws_send_def
        split: option.splits xmit_result.splits)
  then show ?thesis using Send by simp
next
  case Disconnect
  then show ?thesis by (simp add: disconnect_cells)
next
  case (TimerFire t)
  have c: "effectUrl (returned (connect cfg rt s')) = effectUrl s'" for s' :: "('a, 'b) state"
    by (auto simp: connect_defs ws_new_def ws_close_def detach_def schedule_retry_def
        setTimeout_def Let_def split: option.splits)
  have "effectUrl (fire_timer cfg rt t s) = effectUrl s"
    by (simp add: fire_timer_def c Let_def split: option.splits timer_kind.splits)
  then show ?thesis using TimerFire by simp
next
  case (SockOpen j)
  then show ?thesis by (simp add: sock_open_def ws_onopen_def flush_cells Let_def)
next
  case (SockMessage j p)
  then show ?thesis by (simp add: sock_message_def ws_onmessage_def split: option.splits)
next
  case (SockError j)
  then show ?thesis by (simp add: sock_error_def ws_onerror_def)
next
  case (SockClosing j)
  then show ?thesis by (simp add: sock_closing_def)
next
  case (SockClose j)
  then show ?thesis
    by (simp add: sock_close_def ws_onclose_def schedule_retry_def setTimeout_def Let_def)
qed

lemma run_without_same_renders:
  "\<forall>e \<in> set es. \<forall>u. e = Render u \<longrightarrow> u = effectUrl s \<Longrightarrow>
   run cfg rt s es = run cfg rt s (filter (\<lambda>e. \<not> is_render e) es)"
proof (induction es arbitrary: s)
  case Nil
  show ?case by simp
next
  case (Cons e es)
  show ?case
  proof (cases "is_render e")
    case True
    then obtain u where u: "e = Render u" by (cases e) simp_all
    then have "step cfg rt s e = s" using Cons.prems by (simp add: render_def)
    then show ?thesis using True Cons by simp
  next
    case False
    have "effectUrl (step cfg rt s e) = effectUrl s" using False by (rule step_effectUrl)
    then have "run cfg rt (step cfg rt s e) es =
               run cfg rt (step cfg rt s e) (filter (\<lambda>e. \<not> is_render e) es)"
      using Cons.prems by (intro Cons.IH) simp
    then show ?thesis using False by simp
  qed
qed

text \<open>
  Claim C1, as stated, fails in its first part: \<^verbatim>\<open>disconnect\<close> does not touch the
  outbound queue. In the example a message is queued while a reconnection is
  pending, and it is still queued after \<^verbatim>\<open>disconnect\<close>.
\<close>

theorem disconnect_queue_counterexample:
  "messageQueueRef pending_state = [''subscribe''] \<and>
   messageQueueRef (step example_cfg example_rt pending_state Disconnect) = [''subscribe'']"
  by (simp add: pending_state_simps disconnect_cells)

text \<open>
  Claim C1, amended. \<^verbatim>\<open>disconnect\<close> leaves the outbound queue as it was. It sets the
  manual-close flag, makes \<^verbatim>\<open>connected\<close> false, resets \<^verbatim>\<open>wsRef\<close>, cancels the
  reconnection timer held in \<^verbatim>\<open>reconnectTimeoutRef\<close>, and closes the current socket
  if it is connecting or open. After any further events other than a render, a
  timer that fires, whichever it is, only expires: the state after it is the state
  with that timer removed, so it constructs no socket; and a close event of any
  socket schedules no retry.
\<close>

theorem disconnect_effects:
  "messageQueueRef (disconnect s) = messageQueueRef s \<and>
   isManualCloseRef (disconnect s) \<and>
   \<not> connectedSig (disconnect s) \<and>
   wsRef (disconnect s) = None \<and>
   reconnectTimeoutRef (disconnect s) = None \<and>
   (reconnectTimeoutRef s = Some t \<longrightarrow> timers (disconnect s) t = None) \<and>
   (wsRef s = Some i \<and>
    (readyState (socks s i) = CONNECTING \<or> readyState (socks s i) = OPEN) \<longrightarrow>
      readyState (socks (disconnect s) i) = CLOSING \<and>
      trace (disconnect s) = trace s @ [CloseCall i]) \<and>
   ((\<forall>e \<in> set es. \<not> is_render e) \<longrightarrow>
      fire_timer cfg rt t' (run cfg rt (disconnect s) es) =
        clearTimeout t' (run cfg rt (disconnect s) es) \<and>
      nextSock (fire_timer cfg rt t' (run cfg rt (disconnect s) es)) = nextSock s \<and>
      nextTimer (step cfg rt (run cfg rt (disconnect s) es) (SockClose j)) =
        nextTimer (run cfg rt (disconnect s) es))"
proof -
  have later: "fire_timer cfg rt t' (run cfg rt (disconnect s) es) =
        clearTimeout t' (run cfg rt (disconnect s) es) \<and>
      nextSock (fire_timer cfg rt t' (run cfg rt (disconnect s) es)) = nextSock s \<and>
      nextTimer (step cfg rt (run cfg rt (disconnect s) es) (SockClose j)) =
        nextTimer (run cfg rt (disconnect s) es)"
    if "\<forall>e \<in> set es. \<not> is_render e"
  proof -
    have m: "isManualCloseRef (run cfg rt (disconnect s) es) \<and>
             nextSock (run cfg rt (disconnect s) es) = nextSock (disconnect s)"
      using that by (intro manual_run) (simp_all add: disconnect_cells)
    then show ?thesis
      by (simp add: fire_timer_manual sock_close_manual clearTimeout_def disconnect_cells)
  qed
  have now: "messageQueueRef (disconnect s) = messageQueueRef s \<and>
   isManualCloseRef (disconnect s) \<and>
   \<not> connectedSig (disconnect s) \<and>
   wsRef (disconnect s) = None \<and>
   reconnectTimeoutRef (disconnect s) = None \<and>
   (reconnectTimeoutRef s = Some t \<longrightarrow> timers (disconnect s) t = None) \<and>
   (wsRef s = Some i \<and>
    (readyState (socks s i) = CONNECTING \<or> readyState (socks s i) = OPEN) \<longrightarrow>
      readyState (socks (disconnect s) i) = CLOSING \<and>
      trace (disconnect s) = trace s @ [CloseCall i])"
    by (simp add: disconnect_cells disconnect_timer disconnect_sock disconnect_trace)
  from now later show ?thesis by blast
qed

theorem disconnect_effects_witness:
  "reconnectTimeoutRef pending_state = Some 1 \<and>
   timers pending_state (Suc 0) = Some \<lparr>kind = RetryAfterClose, delay = Finite 3000\<rparr> \<and>
   timers (disconnect pending_state) (Suc 0) = None \<and>
   fire_timer example_cfg example_rt 0
      (run example_cfg example_rt (disconnect pending_state) [Send ''x'', CallConnect]) =
     clearTimeout 0
      (run example_cfg example_rt (disconnect pending_state) [Send ''x'', CallConnect]) \<and>
   wsRef open_state = Some 0 \<and> readyState (socks open_state 0) = OPEN \<and>
   readyState (socks (disconnect open_state) 0) = CLOSING \<and>
   trace (disconnect open_state) = [CbOpen, CloseCall 0]"
  using disconnect_effects
      [of pending_state 1 0 "[Send ''x'', CallConnect]" example_cfg example_rt 0 0]
    disconnect_effects [of open_state 1 0 "[]" example_cfg example_rt 1 0]
  by (simp add: pending_state_simps open_state_simps)

text \<open>
  Claim C10. \<^verbatim>\<open>disconnect\<close> adds no callback invocation to the trace. The four
  handlers of the socket it closes are removed, so an open, message, error or close
  event that the transport later reports for that socket adds nothing to the trace
  either. Apart from \<^verbatim>\<open>connected\<close> (false), the cancelled timer and the discarded
  handle, the queue, the attempt counter, the address, the other sockets, the other
  timers and the allocation counters are as before.
\<close>

theorem disconnect_fires_no_callback:
  "filter is_callback (trace (disconnect s)) = filter is_callback (trace s) \<and>
   (wsRef s = Some i \<longrightarrow>
      \<not> onopen (socks (disconnect s) i) \<and> \<not> onmessage (socks (disconnect s) i) \<and>
      \<not> onerror (socks (disconnect s) i) \<and> \<not> onclose (socks (disconnect s) i) \<and>
      trace (step cfg rt (disconnect s) (SockOpen i)) = trace (disconnect s) \<and>
      trace (step cfg rt (disconnect s) (SockMessage i p)) = trace (disconnect s) \<and>
      trace (step cfg rt (disconnect s) (SockError i)) = trace (disconnect s) \<and>
      trace (step cfg rt (disconnect s) (SockClose i)) = trace (disconnect s)) \<and>
   messageQueueRef (disconnect s) = messageQueueRef s \<and>
   reconnectAttemptsRef (disconnect s) = reconnectAttemptsRef s \<and>
   urlRef (disconnect s) = urlRef s \<and>
   nextSock (disconnect s) = nextSock s \<and>
   nextTimer (disconnect s) = nextTimer s \<and>
   (wsRef s \<noteq> Some j \<longrightarrow> socks (disconnect s) j = socks s j) \<and>
   (reconnectTimeoutRef s \<noteq> Some t \<longrightarrow> timers (disconnect s) t = timers s t) \<and>
   \<not> connectedSig (disconnect s) \<and> reconnectTimeoutRef (disconnect s) = None \<and>
   wsRef (disconnect s) = None"
  by (simp add: disconnect_cells disconnect_timer disconnect_sock disconnect_trace
      sock_open_def sock_message_def sock_error_def sock_close_def split: option.splits)

theorem disconnect_fires_no_callback_witness:
  "wsRef open_state = Some 0 \<and>
   trace (disconnect open_state) = [CbOpen, CloseCall 0] \<and>
   trace (run example_cfg example_rt open_state [Disconnect, SockError 0, SockClose 0]) =
     [CbOpen, CloseCall 0] \<and>
   wsRef open_state \<noteq> Some 1 \<and> reconnectTimeoutRef open_state \<noteq> Some 0"
  using disconnect_fires_no_callback [of open_state 0 example_cfg example_rt "''x''" 1 0]
  by (simp add: open_state_simps disconnect_trace disconnect_sock disconnect_cells
      sock_error_def sock_close_def)

subsection \<open>Connecting sockets in reachable states\<close>

lemma after_state_not_connecting: "after_state a \<noteq> CONNECTING"
  by (cases a) (simp_all add: after_state_def)

lemma flush_one_socks:
  "socks (flush_one rt i m s) j = socks s j \<or>
   (j = i \<and> readyState (socks s i) = OPEN \<and>
    (\<exists>a. socks (flush_one rt i m s) j = (socks s j)\<lparr>readyState := after_state a\<rparr>))"
  by (auto simp: flush_one_def transmit_def ws_send_def
      split: option.splits xmit_result.splits)

lemma flush_socks:
  "(readyState (socks (flush rt i q s) j) = CONNECTING \<longrightarrow>
      readyState (socks s j) = CONNECTING) \<and>
   onopen (socks (flush rt i q s) j) = onopen (socks s j)"
proof (induction q arbitrary: s)
  case Nil
  show ?case by simp
next
  case (Cons m q)
  have one: "(readyState (socks (flush_one rt i m s) j) = CONNECTING \<longrightarrow>
               readyState (socks s j) = CONNECTING) \<and>
             onopen (socks (flush_one rt i m s) j) = onopen (socks s j)"
    using flush_one_socks [of rt i m s j] after_state_not_connecting by auto
  show ?case using Cons.IH [of "flush_one rt i m s"] one by simp
qed

lemma release_sole: "sole_attempt s \<Longrightarrow> sole_attempt (release s)"
  by (auto simp: sole_attempt_def release_def clearTimeout_def detach_def ws_close_def Let_def
      split: option.splits)

lemma schedule_retry_socks:
  "socks (schedule_retry cfg rt k s) = socks s" "wsRef (schedule_retry cfg rt k s) = wsRef s"
  by (simp_all add: schedule_retry_def setTimeout_def Let_def)

lemma connect_sole: "sole_attempt s \<Longrightarrow> sole_attempt (returned (connect cfg rt s))"
  unfolding connect_def ws_open_def connect_cleanup_def connect_try_def connect_catch_def
    ws_new_def
  by (auto simp: sole_attempt_def schedule_retry_socks detach_def ws_close_def Let_def
      split: option.splits)

lemma send_sole: "sole_attempt s \<Longrightarrow> sole_attempt (returned (send rt m s))"
  by (auto simp: sole_attempt_def send_def enqueue_def transmit_def ws_send_def
      after_state_not_connecting split: option.splits xmit_result.splits)

lemma fire_timer_sole: "sole_attempt s \<Longrightarrow> sole_attempt (fire_timer cfg rt t s)"
proof -
  assume a: "sole_attempt s"
  have b: "sole_attempt (s\<lparr>timers := (timers s)(t := None)\<rparr>)"
    using a by (simp add: sole_attempt_def)
  show ?thesis using a connect_sole [OF b, of cfg rt]
    by (simp add: fire_timer_def Let_def b split: option.splits timer_kind.splits)
qed

lemma render_sole: "sole_attempt s \<Longrightarrow> sole_attempt (render u s)"
proof -
  assume a: "sole_attempt s"
  have m: "sole_attempt (main_effect u (s'\<lparr>urlRef := u\<rparr>))" if "sole_attempt s'"
    for s' :: "('a, 'b) state"
    using that by (simp add: sole_attempt_def main_effect_def setTimeout_def Let_def)
  have c: "sole_attempt (effect_cleanup s)"
  proof -
    have "sole_attempt (s\<lparr>isManualCloseRef := True\<rparr>)" using a by (simp add: sole_attempt_def)
    moreover have "sole_attempt (clearTimeout t s\<lparr>isManualCloseRef := True\<rparr>)" for t
      using a by (simp add: sole_attempt_def clearTimeout_def)
    moreover have "sole_attempt (clearTimeout t s)" for t
      using a by (simp add: sole_attempt_def clearTimeout_def)
    ultimately show ?thesis
      by (simp add: effect_cleanup_def release_sole Let_def split: option.splits)
  qed
  show ?thesis using a m [OF c] by (simp add: render_def)
qed

lemma sock_open_sole: "sole_attempt s \<Longrightarrow> sole_attempt (sock_open rt i s)"
proof -
  assume a: "sole_attempt s"
  let ?s1 = "s\<lparr>socks := (socks s)(i := (socks s i)\<lparr>readyState := OPEN\<rparr>)\<rparr>"
  let ?s2 = "?s1\<lparr>isConnectingRef := False, connectedSig := True, reconnectAttemptsRef := 0,
               messageQueueRef := []\<rparr>"
  have s1: "sole_attempt ?s1" using a by (auto simp: sole_attempt_def)
  have s2: "sole_attempt ?s2" using a by (auto simp: sole_attempt_def)
  have f: "sole_attempt (flush rt i q ?s2)" for q
    unfolding sole_attempt_def
  proof (intro allI impI)
    fix j
    assume h: "readyState (socks (flush rt i q ?s2) j) = CONNECTING \<and>
               onopen (socks (flush rt i q ?s2) j)"
    then have "readyState (socks ?s2 j) = CONNECTING \<and> onopen (socks ?s2 j)"
      using flush_socks [of rt i q ?s2 j] by blast
    then have "wsRef ?s2 = Some j" using s2 unfolding sole_attempt_def by blast
    then show "wsRef (flush rt i q ?s2) = Some j" by (simp add: flush_cells)
  qed
  have g: "sole_attempt (s'\<lparr>trace := tr\<rparr>)" if "sole_attempt s'"
    for s' :: "('a, 'b) state" and tr
    using that by (simp add: sole_attempt_def)
  show ?thesis using a s1 g [OF f]
    by (simp add: sock_open_def ws_onopen_def Let_def)
qed

lemma sock_close_sole: "sole_attempt s \<Longrightarrow> sole_attempt (sock_close cfg rt i s)"
  by (auto simp: sock_close_def ws_onclose_def schedule_retry_socks sole_attempt_def Let_def)

lemma sole_step: "sole_attempt s \<Longrightarrow> sole_attempt (step cfg rt s e)"
proof (cases e)
  case (Render u)
  assume "sole_attempt s" then show ?thesis using Render by (simp add: render_sole)
next
  case CallConnect
  assume "sole_attempt s" then show ?thesis using CallConnect by (simp add: connect_sole)
next
  case (Send m)
  assume "sole_attempt s" then show ?thesis using Send by (simp add: send_sole)
next
  case Disconnect
  assume a: "sole_attempt s"
  have "sole_attempt (s\<lparr>isManualCloseRef := True, isConnectingRef := False\<rparr>)"
    using a by (simp add: sole_attempt_def)
  then show ?thesis using Disconnect by (simp add: disconnect_def release_sole)
next
  case (TimerFire t)
  assume "sole_attempt s" then show ?thesis using TimerFire by (simp add: fire_timer_sole)
next
  case (SockOpen j)
  assume "sole_attempt s" then show ?thesis using SockOpen by (simp add: sock_open_sole)
next
  case (SockMessage j p)
  assume "sole_attempt s" then show ?thesis using SockMessage
    by (simp add: sock_message_def ws_onmessage_def sole_attempt_def split: option.splits)
next
  case (SockError j)
  assume "sole_attempt s" then show ?thesis using SockError
    by (simp add: sock_error_def ws_onerror_def sole_attempt_def)
next
  case (SockClosing j)
  assume "sole_attempt s" then show ?thesis using SockClosing
    by (auto simp: sock_closing_def sole_attempt_def)
next
  case (SockClose j)
  assume "sole_attempt s" then show ?thesis using SockClose by (simp add: sock_close_sole)
qed

lemma sole_run: "sole_attempt s \<Longrightarrow> sole_attempt (run cfg rt s es)"
  by (induction es arbitrary: s) (simp_all add: sole_step)

lemma sole_mount: "sole_attempt (mount u)"
  by (simp add: sole_attempt_def mount_def init_def main_effect_def setTimeout_def Let_def)

lemma shut_disconnect: "sole_attempt s \<Longrightarrow> shut (disconnect s)"
  by (auto simp: shut_def sole_attempt_def disconnect_cells disconnect_sock)

lemma shut_step:
  assumes "shut s" and "\<not> is_render e"
  shows "shut (step cfg rt s e)"
proof -
  have m: "isManualCloseRef s" and n: "\<not> connectedSig s"
    and f: "\<And>i. \<not> (readyState (socks s i) = CONNECTING \<and> onopen (socks s i))"
    using assms(1) by (auto simp: shut_def)
  show ?thesis
  proof (cases e)
    case (Render u)
    then show ?thesis using assms by simp
  next
    case CallConnect
    then show ?thesis using assms m by (simp add: connect_manual)
  next
    case (Send msg)
    have "shut (returned (send rt msg s))"
      using m n f
      by (auto simp: shut_def send_def enqueue_def transmit_def ws_send_def
          after_state_not_connecting split: option.splits xmit_result.splits)
    then show ?thesis using Send by simp
  next
    case Disconnect
    then show ?thesis using f by (auto simp: shut_def disconnect_cells disconnect_sock)
  next
    case (TimerFire t)
    then show ?thesis using assms m
      by (simp add: fire_timer_manual clearTimeout_def shut_def)
  next
    case (SockOpen j)
    then show ?thesis using m n f by (auto simp: sock_open_def shut_def)
  next
    case (SockMessage j p)
    then show ?thesis using assms
      by (simp add: sock_message_def ws_onmessage_def shut_def split: option.splits)
  next
    case (SockError j)
    then show ?thesis using assms by (simp add: sock_error_def ws_onerror_def shut_def)
  next
    case (SockClosing j)
    then show ?thesis using m n f by (auto simp: sock_closing_def shut_def)
  next
    case (SockClose j)
    then show ?thesis using m n f
      by (auto simp: sock_close_def ws_onclose_def schedule_retry_manual shut_def Let_def)
  qed
qed

lemma shut_run: "shut s \<Longrightarrow> \<forall>e \<in> set es. \<not> is_render e \<Longrightarrow> shut (run cfg rt s es)"
  by (induction es arbitrary: s) (simp_all add: shut_step)

lemma closed_state_simps:
  "isManualCloseRef closed_state"
  "nextSock closed_state = 1"
  "\<not> connectedSig closed_state"
  "messageQueueRef closed_state = [''subscribe'']"
  "sock_url (socks closed_state 0) = ''wss://api.hyperliquid.xyz/ws''"
  by (simp_all add: closed_state_def example_defs effect_defs loop_defs connect_defs
      helper_defs api_defs Let_def)

text \<open>
  Claim C9, as stated, fails: "never again by any means" does not hold across a
  change of the address. After \<^verbatim>\<open>disconnect\<close>, a render with no address followed by a
  render with the old address clears the manual-close flag; the delay of the main
  effect then calls \<^verbatim>\<open>connect\<close>, which constructs a second socket to the same
  address, and when that socket opens the message queued before \<^verbatim>\<open>disconnect\<close> is
  transmitted.
\<close>

theorem reconnect_after_rerender_counterexample:
  "isManualCloseRef closed_state \<and> nextSock closed_state = 1 \<and>
   sock_url (socks closed_state 0) = ''wss://api.hyperliquid.xyz/ws'' \<and>
   nextSock (run example_cfg example_rt closed_state
     [Render None, Render example_url, TimerFire 1, SockOpen 1]) = 2 \<and>
   sock_url (socks (run example_cfg example_rt closed_state
     [Render None, Render example_url, TimerFire 1, SockOpen 1]) 1) =
     ''wss://api.hyperliquid.xyz/ws'' \<and>
   connectedSig (run example_cfg example_rt closed_state
     [Render None, Render example_url, TimerFire 1, SockOpen 1]) \<and>
   trace (run example_cfg example_rt closed_state
     [Render None, Render example_url, TimerFire 1, SockOpen 1]) =
     [CloseCall 0, Transmit 1 ''subscribe'', CbOpen]"
  by (simp add: closed_state_def example_defs effect_defs loop_defs connect_defs
      helper_defs handler_defs api_defs Let_def)

text \<open>
  Claim C9, amended. After \<^verbatim>\<open>disconnect\<close>, over every sequence of events in which the
  component is not rendered with another \<^verbatim>\<open>url\<close> (so the address stays what it is),
  the manual-close flag stays set and no socket is constructed; when \<^verbatim>\<open>disconnect\<close>
  was called in a state the hook can reach from its first render, \<^verbatim>\<open>connected\<close> stays
  false as well. In any state, an event that clears the flag is a render with a
  \<^verbatim>\<open>url\<close> different from the one of the live effect; in particular neither \<^verbatim>\<open>send\<close>
  nor \<^verbatim>\<open>disconnect\<close> clears it. While the flag is set, \<^verbatim>\<open>connect\<close> returns at once
  and every timer callback only expires.
\<close>

theorem no_reconnect_after_disconnect:
  "((\<forall>e \<in> set es. \<forall>u. e = Render u \<longrightarrow> u = effectUrl s) \<longrightarrow>
      isManualCloseRef (run cfg rt (disconnect s) es) \<and>
      nextSock (run cfg rt (disconnect s) es) = nextSock s) \<and>
   ((\<forall>e \<in> set es. \<forall>u. e = Render u \<longrightarrow> u = effectUrl s) \<and>
    s = run cfg rt (mount u0) es0 \<longrightarrow>
      \<not> connectedSig (run cfg rt (disconnect s) es)) \<and>
   (isManualCloseRef s \<and> \<not> isManualCloseRef (step cfg rt s e) \<longrightarrow>
      (\<exists>u. e = Render u \<and> u \<noteq> effectUrl s)) \<and>
   (isManualCloseRef s \<longrightarrow>
      connect cfg rt s = Done s \<and> fire_timer cfg rt t s = clearTimeout t s)"
proof -
  let ?es = "filter (\<lambda>e. \<not> is_render e) es"
  have nr: "\<forall>e \<in> set ?es. \<not> is_render e" by simp
  have same: "run cfg rt (disconnect s) es = run cfg rt (disconnect s) ?es"
    if "\<forall>e \<in> set es. \<forall>u. e = Render u \<longrightarrow> u = effectUrl s"
    using that by (intro run_without_same_renders) (simp add: disconnect_cells)
  have a: "isManualCloseRef (run cfg rt (disconnect s) es) \<and>
      nextSock (run cfg rt (disconnect s) es) = nextSock s"
    if h: "\<forall>e \<in> set es. \<forall>u. e = Render u \<longrightarrow> u = effectUrl s"
  proof -
    have "isManualCloseRef (run cfg rt (disconnect s) ?es) \<and>
          nextSock (run cfg rt (disconnect s) ?es) = nextSock (disconnect s)"
      using nr by (intro manual_run) (simp_all add: disconnect_cells)
    then show ?thesis by (simp only: same [OF h] disconnect_cells)
  qed
  have c: "\<not> connectedSig (run cfg rt (disconnect s) es)"
    if h: "(\<forall>e \<in> set es. \<forall>u. e = Render u \<longrightarrow> u = effectUrl s) \<and>
           s = run cfg rt (mount u0) es0"
  proof -
    have "sole_attempt s" using h by (simp add: sole_run sole_mount)
    then have "shut (disconnect s)" by (rule shut_disconnect)
    then have "shut (run cfg rt (disconnect s) ?es)" using nr by (rule shut_run)
    then have nc: "\<not> connectedSig (run cfg rt (disconnect s) ?es)"
      by (simp add: shut_def)
    have eq: "run cfg rt (disconnect s) es = run cfg rt (disconnect s) ?es"
      using h by (intro same) blast
    show ?thesis unfolding eq using nc .
  qed
  have b: "\<exists>u. e = Render u \<and> u \<noteq> effectUrl s"
    if h: "isManualCloseRef s \<and> \<not> isManualCloseRef (step cfg rt s e)"
  proof (cases "is_render e")
    case True
    then obtain u where u: "e = Render u" by (cases e) simp_all
    have "u \<noteq> effectUrl s" using h u by (auto simp: render_def)
    then show ?thesis using u by simp
  next
    case False
    then show ?thesis using h manual_step [of s e cfg rt] by simp
  qed
  have d: "isManualCloseRef s \<longrightarrow>
      connect cfg rt s = Done s \<and> fire_timer cfg rt t s = clearTimeout t s"
    by (simp add: connect_manual fire_timer_manual)
  from a b c d show ?thesis by blast
qed

theorem no_reconnect_after_disconnect_witness:
  "pending_state = run example_cfg example_rt (mount example_url)
     [TimerFire 0, SockOpen 0, SockClose 0, Send ''subscribe''] \<and>
   effectUrl pending_state = example_url \<and>
   nextSock (run example_cfg example_rt (disconnect pending_state)
     [Render example_url, TimerFire 1, CallConnect, Send ''x'', SockClose 0, TimerFire 0]) =
     nextSock pending_state \<and>
   \<not> connectedSig (run example_cfg example_rt (disconnect pending_state)
     [Render example_url, TimerFire 1, CallConnect, Send ''x'', SockClose 0, TimerFire 0]) \<and>
   isManualCloseRef (disconnect pending_state) \<and>
   \<not> isManualCloseRef (step example_cfg example_rt (disconnect pending_state) (Render None)) \<and>
   connect example_cfg example_rt (disconnect pending_state) = Done (disconnect pending_state)"
proof -
  have r: "pending_state = run example_cfg example_rt (mount example_url)
     [TimerFire 0, SockOpen 0, SockClose 0, Send ''subscribe'']"
    by (simp add: pending_state_def open_state_def)
  show ?thesis
    using r no_reconnect_after_disconnect
      [of "[Render example_url, TimerFire 1, CallConnect, Send ''x'', SockClose 0,
            TimerFire 0]"
        pending_state example_cfg example_rt example_url
        "[TimerFire 0, SockOpen 0, SockClose 0, Send ''subscribe'']" "Render None" 1]
    no_reconnect_after_disconnect
      [of "[]" "disconnect pending_state" example_cfg example_rt example_url "[]"
        "Render None" 1]
    by (simp add: disconnect_cells pending_state_simps example_url_def render_def
      main_effect_def truthy_def)
qed

subsection \<open>An exhausted reconnection budget\<close>












lemma raced_state_simps:
  "reconnectAttemptsRef raced_state = 1"
  "nextSock raced_state = 2"
  "nextTimer raced_state = 3"
  "wsRef raced_state = Some 1"
  "readyState (socks raced_state (Suc 0)) = CONNECTING"
  "onopen (socks raced_state (Suc 0))"
  by (simp_all add: raced_state_def limited_cfg_def example_defs effect_defs loop_defs
      connect_defs helper_defs handler_defs fl_evals Let_def one_enat_def)





end
